theory Spec2Isabelle
  imports Main "HOL-Library.Word"
begin

unbundle bit_operations_syntax

section \<open>Characters\<close>

text \<open>
  The lexers read the buffer one byte at a time (\<^verbatim>\<open>int ch\<close> holding an
  \<^verbatim>\<open>unsigned char\<close>), so a character is a \<^typ>\<open>char\<close>; the sentinel for a
  position outside the buffer is the NUL character.  Counters of the lexers are C
  \<^verbatim>\<open>int\<close>s that stay far away from the limits of the type (digit counts, nesting
  depths, flags), so they are modelled as \<^typ>\<open>int\<close>.
\<close>

definition ord :: "char \<Rightarrow> nat" where
  "ord c = of_char c"

text \<open>
  Modelled from the spec: the character classifier of \<^verbatim>\<open>CharacterSet.h\<close>, which
  is not part of the sources at hand.  The spec calls them pure predicates
  (is-digit, is-identifier-start, is-space-equivalent, end-of-line character, valid
  digit in the active numeric base); the definitions give them their ASCII meaning.
\<close>

definition IsEOLChar :: "char \<Rightarrow> bool" where
  "IsEOLChar ch = (ch = CHR 0x0D \<or> ch = CHR 0x0A)"

definition IsADigit :: "char \<Rightarrow> bool" where
  "IsADigit ch = (48 \<le> ord ch \<and> ord ch \<le> 57)"

definition IsOctalDigit :: "char \<Rightarrow> bool" where
  "IsOctalDigit ch = (48 \<le> ord ch \<and> ord ch \<le> 55)"

definition IsHexDigit :: "char \<Rightarrow> bool" where
  "IsHexDigit ch = ((48 \<le> ord ch \<and> ord ch \<le> 57)
     \<or> (65 \<le> ord ch \<and> ord ch \<le> 70) \<or> (97 \<le> ord ch \<and> ord ch \<le> 102))"

text \<open>\<^verbatim>\<open>IsADigit(ch, base)\<close>: a digit of the numeric base \<open>base\<close>.\<close>

definition IsADigitBase :: "char \<Rightarrow> int \<Rightarrow> bool" where
  "IsADigitBase ch base =
     (if base \<le> 10 then 48 \<le> int (ord ch) \<and> int (ord ch) < 48 + base
      else (48 \<le> ord ch \<and> ord ch \<le> 57)
        \<or> (65 \<le> int (ord ch) \<and> int (ord ch) < 65 + base - 10)
        \<or> (97 \<le> int (ord ch) \<and> int (ord ch) < 97 + base - 10))"

definition IsDecimalOrHex :: "char \<Rightarrow> bool \<Rightarrow> bool" where
  "IsDecimalOrHex ch hex = (if hex then IsHexDigit ch else IsADigit ch)"

definition IsAlpha :: "char \<Rightarrow> bool" where
  "IsAlpha ch = ((65 \<le> ord ch \<and> ord ch \<le> 90) \<or> (97 \<le> ord ch \<and> ord ch \<le> 122))"

definition IsIdentifierChar :: "char \<Rightarrow> bool" where
  "IsIdentifierChar ch = (IsAlpha ch \<or> IsADigit ch \<or> ch = CHR ''_'')"

definition IsIdentifierStart :: "char \<Rightarrow> bool" where
  "IsIdentifierStart ch = (IsAlpha ch \<or> ch = CHR ''_'')"

definition IsAGraphic :: "char \<Rightarrow> bool" where
  "IsAGraphic ch = (32 < ord ch \<and> ord ch < 127)"

definition isspacechar :: "char \<Rightarrow> bool" where
  "isspacechar ch = (ch = CHR '' '' \<or> (9 \<le> ord ch \<and> ord ch \<le> 13))"

section \<open>Escape sequences\<close>

subsection \<open>Asymptote\<close>

datatype asy_style =
    SCE_ASY_DEFAULT
  | SCE_ASY_COMMENTLINE
  | SCE_ASY_COMMENTBLOCK
  | SCE_ASY_TASKMARKER
  | SCE_ASY_OPERATOR
  | SCE_ASY_NUMBER
  | SCE_ASY_IDENTIFIER
  | SCE_ASY_WORD
  | SCE_ASY_TYPE
  | SCE_ASY_STRUCT
  | SCE_ASY_CONSTANT
  | SCE_ASY_FUNCTION
  | SCE_ASY_FUNCTION_DEFINITION
  | SCE_ASY_STRING_SQ
  | SCE_ASY_STRING_DQ
  | SCE_ASY_ESCAPECHAR

record AsyEscapeSequence =
  asy_outerState :: asy_style
  asy_digitsLeft :: int
  asy_numBase :: int

definition AsyEscapeSequence_init :: AsyEscapeSequence where
  "AsyEscapeSequence_init =
     \<lparr>asy_outerState = SCE_ASY_DEFAULT, asy_digitsLeft = 0, asy_numBase = 0\<rparr>"

text \<open>
  \<^verbatim>\<open>EscapeSequence::resetEscapeState\<close> of the Asymptote lexer; the result pairs the
  returned flag with the record as the call leaves it.
\<close>

definition asy_resetEscapeState ::
  "asy_style \<Rightarrow> char \<Rightarrow> AsyEscapeSequence \<Rightarrow> bool \<times> AsyEscapeSequence" where
  "asy_resetEscapeState st chNext e =
     (if IsEOLChar chNext then (False, e)
      else
        let e1 = e\<lparr>asy_outerState := st, asy_digitsLeft := 1\<rparr>;
            e2 = (if IsOctalDigit chNext then e1\<lparr>asy_digitsLeft := 3, asy_numBase := 8\<rparr>
                  else if chNext = CHR ''x'' \<or> chNext = CHR ''X''
                       then e1\<lparr>asy_digitsLeft := 3, asy_numBase := 16\<rparr>
                  else e1)
        in (True, e2))"

definition asy_atEscapeEnd :: "char \<Rightarrow> AsyEscapeSequence \<Rightarrow> bool \<times> AsyEscapeSequence" where
  "asy_atEscapeEnd ch e =
     (let e1 = e\<lparr>asy_digitsLeft := asy_digitsLeft e - 1\<rparr>
      in (asy_digitsLeft e1 \<le> 0 \<or> \<not> IsADigitBase ch (asy_numBase e1), e1))"

subsection \<open>F#\<close>

record 's FSharpEscapeSequence =
  fs_outerState :: 's
  fs_digitsLeft :: int
  fs_hex :: bool


definition fs_atEscapeEnd ::
  "char \<Rightarrow> 's FSharpEscapeSequence \<Rightarrow> bool \<times> 's FSharpEscapeSequence" where
  "fs_atEscapeEnd ch e =
     (let e1 = e\<lparr>fs_digitsLeft := fs_digitsLeft e - 1\<rparr>
      in (fs_digitsLeft e1 \<le> 0 \<or> \<not> IsDecimalOrHex ch (fs_hex e1), e1))"

subsection \<open>Dart\<close>

record 's DartEscapeSequence =
  dart_outerState :: 's
  dart_digitsLeft :: int
  dart_brace :: bool


definition dart_atEscapeEnd ::
  "char \<Rightarrow> 's DartEscapeSequence \<Rightarrow> bool \<times> 's DartEscapeSequence" where
  "dart_atEscapeEnd ch e =
     (let e1 = e\<lparr>dart_digitsLeft := dart_digitsLeft e - 1\<rparr>
      in (dart_digitsLeft e1 \<le> 0 \<or> \<not> IsHexDigit ch, e1))"

section \<open>The line state of the CMake lexer\<close>

text \<open>
  The word \<^verbatim>\<open>ColouriseCMakeDoc\<close> stores at each line end, and the two fields it
  reads back when a pass starts on a later line.  \<^verbatim>\<open>GetLineCommentState\<close> is the
  folder's reading of the lowest bit; \<^verbatim>\<open>SimpleLineStateMaskLineComment\<close> is 1.
\<close>

definition cmake_line_state :: "int \<Rightarrow> int \<Rightarrow> int \<Rightarrow> int" where
  "cmake_line_state bracketNumber outerStyle lineStateLineComment =
     (push_bit 8 bracketNumber OR push_bit 1 outerStyle OR lineStateLineComment)"

definition cmake_outerStyle :: "int \<Rightarrow> int" where
  "cmake_outerStyle lineState = drop_bit 1 lineState AND 0x7f"

definition cmake_bracketNumber :: "int \<Rightarrow> int" where
  "cmake_bracketNumber lineState = drop_bit 8 lineState AND 0xff"

definition GetLineCommentState :: "int \<Rightarrow> int" where
  "GetLineCommentState lineState = lineState AND 1"

section \<open>The accessor and the style context\<close>

text \<open>
  Modelled from the spec: the accessor (\<^verbatim>\<open>LexAccessor.h\<close>, \<^verbatim>\<open>Accessor.h\<close>) and
  the cursor (\<^verbatim>\<open>StyleContext.h\<close>), which every colouriser drives and which are not
  part of the sources at hand.  The accessor owns the buffer, the style of every
  position, the start of the run in progress and one line state word per line.
  A style run is recorded in \<open>runs\<close> as (first position, last position, style) at
  the moment the cursor flushes it; a run over no character is not a run and is
  not emitted.
\<close>

record 's Accessor =
  doc :: string
  styles :: "'s list"
  startSeg :: nat
  runs :: "(nat \<times> nat \<times> 's) list"
  lineStates :: "nat \<Rightarrow> int"

definition SafeGetCharAt :: "string \<Rightarrow> nat \<Rightarrow> char" where
  "SafeGetCharAt d pos = (if pos < length d then d ! pos else CHR 0x00)"

text \<open>
  A position ends its line when it holds a line feed, or a carriage return that no
  line feed follows.
\<close>

definition IsLineEndPos :: "string \<Rightarrow> nat \<Rightarrow> bool" where
  "IsLineEndPos d pos =
     (pos < length d \<and>
      (d ! pos = CHR 0x0A \<or> (d ! pos = CHR 0x0D \<and> SafeGetCharAt d (pos + 1) \<noteq> CHR 0x0A)))"

definition GetLine :: "string \<Rightarrow> nat \<Rightarrow> nat" where
  "GetLine d pos = length (filter (IsLineEndPos d) [0..<pos])"

definition AtLineStartPos :: "string \<Rightarrow> nat \<Rightarrow> bool" where
  "AtLineStartPos d pos = (pos = 0 \<or> IsLineEndPos d (pos - 1))"

definition paint :: "nat \<Rightarrow> nat \<Rightarrow> 's \<Rightarrow> 's list \<Rightarrow> 's list" where
  "paint lo hi chAttr xs = fold (\<lambda>i ys. ys[i := chAttr]) [lo..<Suc hi] xs"

definition StartSegment :: "nat \<Rightarrow> 's Accessor \<Rightarrow> 's Accessor" where
  "StartSegment pos a = a\<lparr>startSeg := pos, runs := []\<rparr>"

text \<open>
  \<^verbatim>\<open>ColourTo(pos, chAttr)\<close> styles the positions from the start of the run in
  progress up to and including \<open>pos\<close>; \<open>pos\<close> is an integer because the cursor
  passes \<open>currentPos - 1\<close>.
\<close>

definition ColourTo :: "int \<Rightarrow> 's \<Rightarrow> 's Accessor \<Rightarrow> 's Accessor" where
  "ColourTo pos chAttr a =
     (if pos \<noteq> int (startSeg a) - 1 then
        (if pos < int (startSeg a) then a
         else a\<lparr>styles := paint (startSeg a) (nat pos) chAttr (styles a),
                 runs := runs a @ [(startSeg a, nat pos, chAttr)],
                 startSeg := nat (pos + 1)\<rparr>)
      else a\<lparr>startSeg := nat (pos + 1)\<rparr>)"

definition SetLineState :: "nat \<Rightarrow> int \<Rightarrow> 's Accessor \<Rightarrow> 's Accessor" where
  "SetLineState line v a = a\<lparr>lineStates := (lineStates a)(line := v)\<rparr>"

record 's StyleContext =
  styler :: "'s Accessor"
  endPos :: nat
  lengthDocument :: nat
  currentPos :: nat
  currentLine :: nat
  atLineStart :: bool
  atLineEnd :: bool
  state :: 's
  chPrev :: char
  ch :: char
  chNext :: char

definition GetNextChar :: "'s StyleContext \<Rightarrow> 's StyleContext" where
  "GetNextChar c =
     c\<lparr>chNext := SafeGetCharAt (doc (styler c)) (currentPos c + 1),
       atLineEnd := (if currentPos c < lengthDocument c
                     then IsLineEndPos (doc (styler c)) (currentPos c) else True)\<rparr>"

definition StyleContext_init ::
  "nat \<Rightarrow> nat \<Rightarrow> 's \<Rightarrow> 's Accessor \<Rightarrow> 's StyleContext" where
  "StyleContext_init startPos len initStyle a =
     GetNextChar
       \<lparr>styler = StartSegment startPos a,
        endPos = (if startPos + len < length (doc a) then startPos + len
                  else length (doc a) + 1),
        lengthDocument = length (doc a),
        currentPos = startPos,
        currentLine = GetLine (doc a) startPos,
        atLineStart = AtLineStartPos (doc a) startPos,
        atLineEnd = False,
        state = initStyle,
        chPrev = CHR 0x00,
        ch = SafeGetCharAt (doc a) startPos,
        chNext = CHR 0x00\<rparr>"

definition More :: "'s StyleContext \<Rightarrow> bool" where
  "More c = (currentPos c < endPos c)"

definition Forward :: "'s StyleContext \<Rightarrow> 's StyleContext" where
  "Forward c =
     (if currentPos c < endPos c then
        GetNextChar
          (c\<lparr>atLineStart := atLineEnd c,
             currentLine := (if atLineEnd c then currentLine c + 1 else currentLine c),
             chPrev := ch c,
             currentPos := currentPos c + 1,
             ch := chNext c\<rparr>)
      else c\<lparr>atLineStart := False, chPrev := CHR '' '', ch := CHR '' '',
              chNext := CHR '' '', atLineEnd := True\<rparr>)"

definition ChangeState :: "'s \<Rightarrow> 's StyleContext \<Rightarrow> 's StyleContext" where
  "ChangeState s c = c\<lparr>state := s\<rparr>"

definition flushPos :: "'s StyleContext \<Rightarrow> int" where
  "flushPos c = int (currentPos c) - (if currentPos c > lengthDocument c then 2 else 1)"

definition SetState :: "'s \<Rightarrow> 's StyleContext \<Rightarrow> 's StyleContext" where
  "SetState s c = c\<lparr>styler := ColourTo (flushPos c) (state c) (styler c), state := s\<rparr>"

definition ForwardSetState :: "'s \<Rightarrow> 's StyleContext \<Rightarrow> 's StyleContext" where
  "ForwardSetState s c = SetState s (Forward c)"

definition Complete :: "'s StyleContext \<Rightarrow> 's StyleContext" where
  "Complete c = c\<lparr>styler := ColourTo (flushPos c) (state c) (styler c)\<rparr>"

definition Match2 :: "char \<Rightarrow> char \<Rightarrow> 's StyleContext \<Rightarrow> bool" where
  "Match2 c0 c1 c = (ch c = c0 \<and> chNext c = c1)"

text \<open>The text of the token in progress, cut to the size of the caller's buffer.\<close>

definition GetCurrent :: "nat \<Rightarrow> 's StyleContext \<Rightarrow> string" where
  "GetCurrent len c =
     take (len - 1)
       (take (currentPos c - startSeg (styler c)) (drop (startSeg (styler c)) (doc (styler c))))"

text \<open>
  The next character of the document that is not white space, the current one
  included; NUL when there is none.
\<close>

definition IsWhiteSpace :: "char \<Rightarrow> bool" where
  "IsWhiteSpace c = (c = CHR '' '' \<or> (9 \<le> ord c \<and> ord c \<le> 13))"

definition GetDocNextChar :: "'s StyleContext \<Rightarrow> char" where
  "GetDocNextChar c =
     (if \<not> IsWhiteSpace (ch c) then ch c
      else case dropWhile IsWhiteSpace (drop (currentPos c + 1) (doc (styler c))) of
             [] \<Rightarrow> CHR 0x00
           | x # _ \<Rightarrow> x)"

section \<open>The Asymptote colouriser\<close>

text \<open>
  Modelled from the spec: the numbering of the styles in \<^verbatim>\<open>SciLexer.h\<close>, of which
  the lexer uses only that the default style, the comment styles and the task
  marker come first.
\<close>

fun asy_style_code :: "asy_style \<Rightarrow> int" where
  "asy_style_code SCE_ASY_DEFAULT = 0"
| "asy_style_code SCE_ASY_COMMENTLINE = 1"
| "asy_style_code SCE_ASY_COMMENTBLOCK = 2"
| "asy_style_code SCE_ASY_TASKMARKER = 3"
| "asy_style_code SCE_ASY_OPERATOR = 4"
| "asy_style_code SCE_ASY_NUMBER = 5"
| "asy_style_code SCE_ASY_IDENTIFIER = 6"
| "asy_style_code SCE_ASY_WORD = 7"
| "asy_style_code SCE_ASY_TYPE = 8"
| "asy_style_code SCE_ASY_STRUCT = 9"
| "asy_style_code SCE_ASY_CONSTANT = 10"
| "asy_style_code SCE_ASY_FUNCTION = 11"
| "asy_style_code SCE_ASY_FUNCTION_DEFINITION = 12"
| "asy_style_code SCE_ASY_STRING_SQ = 13"
| "asy_style_code SCE_ASY_STRING_DQ = 14"
| "asy_style_code SCE_ASY_ESCAPECHAR = 15"

definition AsyIsSpaceEquiv :: "asy_style \<Rightarrow> bool" where
  "AsyIsSpaceEquiv st = (asy_style_code st \<le> asy_style_code SCE_ASY_TASKMARKER)"

definition AsymptoteLineStateMaskLineComment :: int where
  "AsymptoteLineStateMaskLineComment = 1"

definition AsymptoteLineStateMaskImport :: int where
  "AsymptoteLineStateMaskImport = push_bit 1 1"

datatype AsyKeywordType = KeywordType_None | KeywordType_Struct | KeywordType_Return

record AsyLexer =
  sc :: "asy_style StyleContext"
  lineStateLineType :: int
  kwType :: AsyKeywordType
  visibleChars :: int
  chBefore :: char
  chPrevNonWhite :: char
  escSeq :: AsyEscapeSequence

text \<open>
  The word lists are the caller's: \<open>kl i s\<close> says that the \<open>i\<close>-th list holds the
  word \<open>s\<close>.
\<close>

type_synonym LexerWordList = "nat \<Rightarrow> string \<Rightarrow> bool"

definition onSc ::
  "(asy_style StyleContext \<Rightarrow> asy_style StyleContext) \<Rightarrow> AsyLexer \<Rightarrow> AsyLexer" where
  "onSc f L = L\<lparr>sc := f (sc L)\<rparr>"

text \<open>
  The body of \<^verbatim>\<open>case SCE_ASY_IDENTIFIER\<close> once the identifier has ended: the
  text of the token is copied to \<open>s\<close> and looked up.
\<close>

definition AsyClassifyWord :: "LexerWordList \<Rightarrow> string \<Rightarrow> AsyLexer \<Rightarrow> AsyLexer" where
  "AsyClassifyWord kl s L =
     (if kl 0 s then
        (let L1 = onSc (ChangeState SCE_ASY_WORD) L in
         if s = ''import'' \<or> s = ''include''
           then L1\<lparr>lineStateLineType := AsymptoteLineStateMaskImport\<rparr>
         else if s = ''new'' \<or> s = ''struct'' then L1\<lparr>kwType := KeywordType_Struct\<rparr>
         else if s = ''return'' then L1\<lparr>kwType := KeywordType_Return\<rparr>
         else L1)
      else if kl 1 s then onSc (ChangeState SCE_ASY_TYPE) L
      else if kwType L = KeywordType_Struct \<or> kl 2 s then onSc (ChangeState SCE_ASY_STRUCT) L
      else if kl 3 s then onSc (ChangeState SCE_ASY_CONSTANT) L
      else if ch (sc L) \<noteq> CHR ''.'' then
        (let cNext = GetDocNextChar (sc L) in
         if cNext = CHR ''('' then
           (if kwType L \<noteq> KeywordType_Return
               \<and> (IsIdentifierChar (chBefore L) \<or> chBefore L = CHR '']'')
            then onSc (ChangeState SCE_ASY_FUNCTION_DEFINITION) L
            else onSc (ChangeState SCE_ASY_FUNCTION) L)
         else if Match2 (CHR ''['') (CHR '']'') (sc L) \<or> IsIdentifierStart cNext
           then onSc (ChangeState SCE_ASY_STRUCT) L
         else L)
      else L)"

definition AsyClassify :: "LexerWordList \<Rightarrow> AsyLexer \<Rightarrow> AsyLexer" where
  "AsyClassify kl L = AsyClassifyWord kl (GetCurrent 128 (sc L)) L"

definition AsyIdentifierEnd :: "LexerWordList \<Rightarrow> AsyLexer \<Rightarrow> AsyLexer" where
  "AsyIdentifierEnd kl L =
     (let L1 = AsyClassify kl L;
          L2 = (if state (sc L1) \<noteq> SCE_ASY_WORD then L1\<lparr>kwType := KeywordType_None\<rparr> else L1)
      in onSc (SetState SCE_ASY_DEFAULT) L2)"

text \<open>
  The \<^verbatim>\<open>switch\<close> on the state; the flag of the result is set where the source
  says \<^verbatim>\<open>continue\<close>.
\<close>

definition AsySwitch :: "LexerWordList \<Rightarrow> AsyLexer \<Rightarrow> bool \<times> AsyLexer" where
  "AsySwitch kl L =
     (case state (sc L) of
        SCE_ASY_OPERATOR \<Rightarrow> (False, onSc (SetState SCE_ASY_DEFAULT) L)
      | SCE_ASY_NUMBER \<Rightarrow>
          (False,
           if \<not> (IsADigit (ch (sc L)) \<or> (ch (sc L) = CHR ''.'' \<and> IsADigit (chNext (sc L))))
           then onSc (SetState SCE_ASY_DEFAULT) L else L)
      | SCE_ASY_IDENTIFIER \<Rightarrow>
          (False, if \<not> IsIdentifierChar (ch (sc L)) then AsyIdentifierEnd kl L else L)
      | SCE_ASY_COMMENTLINE \<Rightarrow>
          (False, if atLineStart (sc L) then onSc (SetState SCE_ASY_DEFAULT) L else L)
      | SCE_ASY_COMMENTBLOCK \<Rightarrow>
          (False,
           if Match2 (CHR ''*'') (CHR ''/'') (sc L)
           then onSc (ForwardSetState SCE_ASY_DEFAULT) (onSc Forward L) else L)
      | SCE_ASY_STRING_DQ \<Rightarrow>
          (False,
           if ch (sc L) = CHR 0x5C then
             (if chNext (sc L) = CHR 0x5C \<or> chNext (sc L) = CHR 0x22 then
                onSc Forward (onSc (SetState SCE_ASY_ESCAPECHAR)
                  (L\<lparr>escSeq := (escSeq L)\<lparr>asy_outerState := SCE_ASY_STRING_DQ,
                                           asy_digitsLeft := 1\<rparr>\<rparr>))
              else L)
           else if ch (sc L) = CHR 0x22 then onSc (ForwardSetState SCE_ASY_DEFAULT) L
           else L)
      | SCE_ASY_STRING_SQ \<Rightarrow>
          (False,
           if ch (sc L) = CHR 0x5C then
             (case asy_resetEscapeState (state (sc L)) (chNext (sc L)) (escSeq L) of
                (True, e) \<Rightarrow> onSc Forward (onSc (SetState SCE_ASY_ESCAPECHAR) (L\<lparr>escSeq := e\<rparr>))
              | (False, e) \<Rightarrow> L\<lparr>escSeq := e\<rparr>)
           else if ch (sc L) = CHR 0x27 then onSc (ForwardSetState SCE_ASY_DEFAULT) L
           else L)
      | SCE_ASY_ESCAPECHAR \<Rightarrow>
          (case asy_atEscapeEnd (ch (sc L)) (escSeq L) of
             (True, e) \<Rightarrow> (True, onSc (SetState (asy_outerState e)) (L\<lparr>escSeq := e\<rparr>))
           | (False, e) \<Rightarrow> (False, L\<lparr>escSeq := e\<rparr>))
      | _ \<Rightarrow> (False, L))"

text \<open>The block \<^verbatim>\<open>if (sc.state == SCE_ASY_DEFAULT)\<close>.\<close>

definition AsyDefault :: "AsyLexer \<Rightarrow> AsyLexer" where
  "AsyDefault L =
     (if state (sc L) = SCE_ASY_DEFAULT then
        (if Match2 (CHR ''/'') (CHR ''/'') (sc L) then
           onSc (SetState SCE_ASY_COMMENTLINE)
             (if visibleChars L = 0
              then L\<lparr>lineStateLineType := AsymptoteLineStateMaskLineComment\<rparr> else L)
         else if Match2 (CHR ''/'') (CHR ''*'') (sc L) then
           onSc Forward (onSc (SetState SCE_ASY_COMMENTBLOCK) L)
         else if ch (sc L) = CHR 0x22 then onSc (SetState SCE_ASY_STRING_DQ) L
         else if ch (sc L) = CHR 0x27 then onSc (SetState SCE_ASY_STRING_SQ) L
         else if IsADigit (ch (sc L)) then onSc (SetState SCE_ASY_NUMBER) L
         else if IsIdentifierStart (ch (sc L)) then
           onSc (SetState SCE_ASY_IDENTIFIER) (L\<lparr>chBefore := chPrevNonWhite L\<rparr>)
         else if IsAGraphic (ch (sc L)) \<and> \<not> (ch (sc L) = CHR 0x5C \<or> ch (sc L) = CHR 0x60)
           then onSc (SetState SCE_ASY_OPERATOR) L
         else L)
      else L)"

text \<open>The end of the loop body: the per-line bookkeeping and the advance.\<close>

definition AsyAdvance :: "AsyLexer \<Rightarrow> AsyLexer" where
  "AsyAdvance L =
     (let L1 = (if \<not> isspacechar (ch (sc L)) then
                  (let L' = L\<lparr>visibleChars := visibleChars L + 1\<rparr> in
                   if \<not> AsyIsSpaceEquiv (state (sc L')) then L'\<lparr>chPrevNonWhite := ch (sc L')\<rparr>
                   else L')
                else L);
          L2 = (if atLineEnd (sc L1) then
                  (onSc (\<lambda>c. c\<lparr>styler := SetLineState (currentLine c) (lineStateLineType L1)
                                            (styler c)\<rparr>) L1)
                    \<lparr>lineStateLineType := 0, visibleChars := 0, kwType := KeywordType_None\<rparr>
                else L1)
      in onSc Forward L2)"

definition AsyIter :: "LexerWordList \<Rightarrow> AsyLexer \<Rightarrow> AsyLexer" where
  "AsyIter kl L =
     (case AsySwitch kl L of
        (True, L1) \<Rightarrow> L1
      | (False, L1) \<Rightarrow> AsyAdvance (AsyDefault L1))"

partial_function (option) AsyLoop :: "LexerWordList \<Rightarrow> AsyLexer \<Rightarrow> AsyLexer option" where
  "AsyLoop kl L = (if More (sc L) then AsyLoop kl (AsyIter kl L) else Some L)"

declare AsyLoop.simps [code]

definition AsyLexer_init :: "nat \<Rightarrow> nat \<Rightarrow> asy_style \<Rightarrow> asy_style Accessor \<Rightarrow> AsyLexer" where
  "AsyLexer_init startPos lengthDoc initStyle a =
     \<lparr>sc = StyleContext_init startPos lengthDoc initStyle a,
      lineStateLineType = 0,
      kwType = KeywordType_None,
      visibleChars = 0,
      chBefore = CHR 0x00,
      chPrevNonWhite = CHR 0x00,
      escSeq = AsyEscapeSequence_init\<rparr>"

definition ColouriseAsyDoc ::
  "nat \<Rightarrow> nat \<Rightarrow> asy_style \<Rightarrow> LexerWordList \<Rightarrow> asy_style Accessor \<Rightarrow> asy_style Accessor option" where
  "ColouriseAsyDoc startPos lengthDoc initStyle kl a =
     map_option (\<lambda>L. styler (Complete (sc L)))
       (AsyLoop kl (AsyLexer_init startPos lengthDoc initStyle a))"

text \<open>A document nobody has styled yet.\<close>

definition Accessor_new :: "string \<Rightarrow> 's \<Rightarrow> 's Accessor" where
  "Accessor_new d s0 =
     \<lparr>doc = d, styles = replicate (length d) s0, startSeg = 0, runs = [],
      lineStates = (\<lambda>_. 0)\<rparr>"

text \<open>
  The characters the escape state of the Asymptote lexer passes over: the loop of
  the colouriser asks \<^verbatim>\<open>atEscapeEnd\<close> at each character and leaves the state at
  the first one for which the answer is yes.
\<close>

fun asy_escape_run :: "AsyEscapeSequence \<Rightarrow> string \<Rightarrow> nat" where
  "asy_escape_run e [] = 0"
| "asy_escape_run e (c # cs) =
     (case asy_atEscapeEnd c e of
        (True, _) \<Rightarrow> 0
      | (False, e1) \<Rightarrow> Suc (asy_escape_run e1 cs))"

text \<open>
  The host of a lexer hands every pass the style of the position in front of the
  range.  \<open>AsyTwoPass p\<close> colours a document in two passes split at \<open>p\<close>: the
  second pass works on the accessor the first one leaves, line states included.
\<close>

definition AsyStyleAt :: "asy_style Accessor \<Rightarrow> nat \<Rightarrow> asy_style" where
  "AsyStyleAt a pos = (if pos < length (styles a) then styles a ! pos else SCE_ASY_DEFAULT)"

definition AsyTwoPass ::
  "nat \<Rightarrow> LexerWordList \<Rightarrow> asy_style Accessor \<Rightarrow> asy_style Accessor option" where
  "AsyTwoPass p kl a =
     (case ColouriseAsyDoc 0 p SCE_ASY_DEFAULT kl a of
        None \<Rightarrow> None
      | Some a1 \<Rightarrow> ColouriseAsyDoc p (length (doc a) - p) (AsyStyleAt a1 (p - 1)) kl a1)"

text \<open>A small configuration of the word lists: keywords and types.\<close>

definition AsyWords :: LexerWordList where
  "AsyWords i s =
     ((i = 0 \<and> s \<in> set [''new'', ''struct'', ''return'', ''import'', ''if''])
      \<or> (i = 1 \<and> s \<in> set [''int'', ''real'']))"

subsection \<open>Style runs that tile a range\<close>

text \<open>
  \<open>contiguous a rs b\<close>: the runs \<open>rs\<close>, in the order of their emission, tile the
  positions from \<open>a\<close> up to \<open>b\<close> (exclusive): the first run starts at \<open>a\<close>, no run
  is empty, every run starts right after the last position of the run before it,
  and the last one ends in front of \<open>b\<close>.
\<close>

fun contiguous :: "nat \<Rightarrow> (nat \<times> nat \<times> 's) list \<Rightarrow> nat \<Rightarrow> bool" where
  "contiguous a [] b = (a = b)"
| "contiguous a ((s, l, _) # rs) b = (s = a \<and> s \<le> l \<and> contiguous (Suc l) rs b)"

definition sc_ok :: "nat \<Rightarrow> 's StyleContext \<Rightarrow> bool" where
  "sc_ok a c =
     (contiguous a (runs (styler c)) (startSeg (styler c))
      \<and> int (startSeg (styler c)) \<le> flushPos c + 1
      \<and> currentPos c \<le> endPos c
      \<and> endPos c \<le> lengthDocument c + 1)"

definition sc_step :: "nat \<Rightarrow> 's StyleContext \<Rightarrow> 's StyleContext \<Rightarrow> bool" where
  "sc_step a c c' =
     ((sc_ok a c \<longrightarrow> sc_ok a c') \<and> endPos c' = endPos c
      \<and> lengthDocument c' = lengthDocument c \<and> doc (styler c') = doc (styler c)
      \<and> currentPos c \<le> currentPos c')"

definition esc_ok :: "AsyLexer \<Rightarrow> bool" where
  "esc_ok L = (asy_outerState (escSeq L) \<noteq> SCE_ASY_ESCAPECHAR)"

definition asy_measure :: "AsyLexer \<Rightarrow> nat" where
  "asy_measure L =
     2 * (endPos (sc L) - currentPos (sc L))
     + (if state (sc L) = SCE_ASY_ESCAPECHAR then 1 else 0)"

section \<open>The Dart colouriser: identifiers, block comments, line ends\<close>

datatype dart_style =
    SCE_DART_DEFAULT
  | SCE_DART_COMMENTLINE
  | SCE_DART_COMMENTLINEDOC
  | SCE_DART_COMMENTBLOCK
  | SCE_DART_COMMENTBLOCKDOC
  | SCE_DART_TASKMARKER
  | SCE_DART_OPERATOR
  | SCE_DART_OPERATOR2
  | SCE_DART_NUMBER
  | SCE_DART_SIMPLE_IDENTIFIER
  | SCE_DART_IDENTIFIER
  | SCE_DART_METADATA
  | SCE_DART_SYMBOL_IDENTIFIER
  | SCE_DART_SYMBOL_OPERATOR
  | SCE_DART_WORD
  | SCE_DART_WORD2
  | SCE_DART_CLASS
  | SCE_DART_ENUM
  | SCE_DART_KEY
  | SCE_DART_LABEL
  | SCE_DART_FUNCTION
  | SCE_DART_FUNCTION_DEFINITION
  | SCE_DART_STRING_SQ
  | SCE_DART_STRING_DQ
  | SCE_DART_TRIPLE_STRING_SQ
  | SCE_DART_TRIPLE_STRING_DQ
  | SCE_DART_RAWSTRING_SQ
  | SCE_DART_RAWSTRING_DQ
  | SCE_DART_TRIPLE_RAWSTRING_SQ
  | SCE_DART_TRIPLE_RAWSTRING_DQ
  | SCE_DART_ESCAPECHAR

text \<open>
  Modelled from the spec: the numbering of the styles in \<^verbatim>\<open>SciLexer.h\<close>.  The
  lexer relies on the default style, the comment styles and the task marker coming
  first, and on every style code lying below \<^verbatim>\<open>0x40\<close>.
\<close>

definition DartIsSpaceEquiv :: "dart_style \<Rightarrow> bool" where
  "DartIsSpaceEquiv st =
     (st \<in> {SCE_DART_DEFAULT, SCE_DART_COMMENTLINE, SCE_DART_COMMENTLINEDOC,
             SCE_DART_COMMENTBLOCK, SCE_DART_COMMENTBLOCKDOC, SCE_DART_TASKMARKER})"

text \<open>
  \<^verbatim>\<open>enum class KeywordType\<close>: \<open>None\<close> is the default style, \<open>Label\<close>, \<open>Class\<close>
  and \<open>Enum\<close> are the styles of the same name, \<open>Return\<close> is \<^verbatim>\<open>0x40\<close> and \<open>While\<close>
  is \<^verbatim>\<open>0x41\<close>.  The test \<^verbatim>\<open>kwType > None && kwType < Return\<close> therefore holds for
  \<open>Label\<close>, \<open>Class\<close> and \<open>Enum\<close> only, and the cast of such a type is its style.
\<close>

datatype DartKeywordType =
    DartKeywordType_None
  | DartKeywordType_Label
  | DartKeywordType_Class
  | DartKeywordType_Enum
  | DartKeywordType_Return
  | DartKeywordType_While

definition DartPendingStyle :: "DartKeywordType \<Rightarrow> dart_style option" where
  "DartPendingStyle k =
     (case k of
        DartKeywordType_Label \<Rightarrow> Some SCE_DART_LABEL
      | DartKeywordType_Class \<Rightarrow> Some SCE_DART_CLASS
      | DartKeywordType_Enum \<Rightarrow> Some SCE_DART_ENUM
      | _ \<Rightarrow> None)"


definition DartLineStateMaskImport :: int where
  "DartLineStateMaskImport = push_bit 1 1"

definition IsDartIdentifierStart :: "char \<Rightarrow> bool" where
  "IsDartIdentifierStart c = (IsIdentifierStart c \<or> c = CHR ''$'')"

definition IsDartIdentifierChar :: "char \<Rightarrow> bool" where
  "IsDartIdentifierChar c = (IsIdentifierChar c \<or> c = CHR ''$'')"

record DartLexer =
  d_sc :: "dart_style StyleContext"
  d_lineStateLineType :: int
  d_commentLevel :: int
  d_kwType :: DartKeywordType
  d_chBeforeIdentifier :: char
  d_nestedState :: "dart_style list"
  d_visibleChars :: int
  d_chBefore :: char
  d_visibleCharsBefore :: int
  d_chPrevNonWhite :: char
  d_escSeq :: "dart_style DartEscapeSequence"

definition onD ::
  "(dart_style StyleContext \<Rightarrow> dart_style StyleContext) \<Rightarrow> DartLexer \<Rightarrow> DartLexer" where
  "onD f L = L\<lparr>d_sc := f (d_sc L)\<rparr>"

text \<open>
  Modelled from the spec: \<^verbatim>\<open>GetLineNextChar\<close> of the cursor, the next character
  of the current line that is not white space (the current one included unless
  told otherwise), NUL when the line has none.
\<close>

definition GetLineNextChar :: "bool \<Rightarrow> 's StyleContext \<Rightarrow> char" where
  "GetLineNextChar ignoreCurrent c =
     (if \<not> ignoreCurrent \<and> \<not> IsWhiteSpace (ch c) then ch c
      else if atLineEnd c then CHR 0x00
      else case dropWhile IsWhiteSpace
                  (takeWhile (\<lambda>x. \<not> IsEOLChar x) (drop (currentPos c + 1) (doc (styler c)))) of
             [] \<Rightarrow> CHR 0x00
           | x # _ \<Rightarrow> x)"

definition LengthCurrent :: "'s StyleContext \<Rightarrow> int" where
  "LengthCurrent c = int (currentPos c) - int (startSeg (styler c))"

text \<open>
  The look-up of an ended identifier (the \<^verbatim>\<open>else\<close> branch that copies the token
  to \<open>s\<close>); \<open>st0\<close> is the state the token was scanned in, \<open>jl\<close> stands for
  \<^verbatim>\<open>IsJumpLabelPrevChar\<close>, which the sources at hand do not hold.
\<close>

definition DartKeyword :: "string \<Rightarrow> dart_style \<Rightarrow> DartLexer \<Rightarrow> DartLexer" where
  "DartKeyword s st0 L =
     (let L1 = onD (ChangeState SCE_DART_WORD) L;
          L2 = (if st0 = SCE_DART_SIMPLE_IDENTIFIER then L1\<lparr>d_kwType := DartKeywordType_None\<rparr>
                else if s \<in> set [''import'', ''part''] then
                  (if d_visibleChars L1 = LengthCurrent (d_sc L1)
                   then L1\<lparr>d_lineStateLineType := DartLineStateMaskImport\<rparr> else L1)
                else if s \<in> set [''class'', ''extends'', ''implements'', ''new'', ''throw'',
                                   ''with'', ''as'', ''is'', ''on'']
                  then L1\<lparr>d_kwType := DartKeywordType_Class\<rparr>
                else if s = ''enum'' then L1\<lparr>d_kwType := DartKeywordType_Enum\<rparr>
                else if s \<in> set [''break'', ''continue'']
                  then L1\<lparr>d_kwType := DartKeywordType_Label\<rparr>
                else if s \<in> set [''return'', ''await'', ''yield'']
                  then L1\<lparr>d_kwType := DartKeywordType_Return\<rparr>
                else L1)
      in if DartPendingStyle (d_kwType L2) \<noteq> None
            \<and> \<not> IsDartIdentifierStart (GetLineNextChar False (d_sc L2))
         then L2\<lparr>d_kwType := DartKeywordType_None\<rparr> else L2)"

definition DartGuess :: "DartLexer \<Rightarrow> DartLexer" where
  "DartGuess L =
     (case DartPendingStyle (d_kwType L) of
        Some st \<Rightarrow> onD (ChangeState st) L
      | None \<Rightarrow>
          (let cNext = GetLineNextChar (ch (d_sc L) = CHR ''?'') (d_sc L) in
           if cNext = CHR ''('' then
             (if d_kwType L \<noteq> DartKeywordType_Return
                 \<and> (IsDartIdentifierChar (d_chBefore L) \<or> d_chBefore L = CHR '']'')
              then onD (ChangeState SCE_DART_FUNCTION_DEFINITION) L
              else onD (ChangeState SCE_DART_FUNCTION) L)
           else if (d_chBeforeIdentifier L = CHR ''<'' \<and> (cNext = CHR ''>'' \<or> cNext = CHR ''<''))
                   \<or> IsDartIdentifierStart cNext
             then onD (ChangeState SCE_DART_CLASS) L
           else L))"

definition DartClassifyWord ::
  "LexerWordList \<Rightarrow> (char \<Rightarrow> bool) \<Rightarrow> string \<Rightarrow> dart_style \<Rightarrow> DartLexer \<Rightarrow> DartLexer" where
  "DartClassifyWord kl jl s st0 L =
     (if kl 0 s then DartKeyword s st0 L
      else if kl 1 s then onD (ChangeState SCE_DART_WORD2) L
      else if kl 2 s then onD (ChangeState SCE_DART_CLASS) L
      else if kl 3 s then onD (ChangeState SCE_DART_ENUM) L
      else if st0 = SCE_DART_IDENTIFIER \<and> ch (d_sc L) = CHR '':'' then
        (if d_chBefore L = CHR '','' \<or> d_chBefore L = CHR ''{'' \<or> d_chBefore L = CHR ''(''
           then onD (ChangeState SCE_DART_KEY) L
         else if jl (d_chBefore L) then onD (ChangeState SCE_DART_LABEL) L
         else L)
      else if st0 = SCE_DART_IDENTIFIER \<and> ch (d_sc L) \<noteq> CHR ''.'' then DartGuess L
      else L)"


text \<open>
  \<^verbatim>\<open>case SCE_DART_COMMENTBLOCK\<close> and \<^verbatim>\<open>case SCE_DART_COMMENTBLOCKDOC\<close>; \<open>htm\<close>
  stands for the call of \<^verbatim>\<open>HighlightTaskMarker\<close>, which the sources at hand do
  not hold, and returns its flag with the lexer as the call leaves it.
\<close>

definition DartCommentBlockCase ::
  "(DartLexer \<Rightarrow> bool \<times> DartLexer) \<Rightarrow> DartLexer \<Rightarrow> bool \<times> DartLexer" where
  "DartCommentBlockCase htm L =
     (if Match2 (CHR ''*'') (CHR ''/'') (d_sc L) then
        (let L1 = (onD Forward L)\<lparr>d_commentLevel := d_commentLevel L - 1\<rparr>
         in (False, if d_commentLevel L1 = 0 then onD (ForwardSetState SCE_DART_DEFAULT) L1
                    else L1))
      else if Match2 (CHR ''/'') (CHR ''*'') (d_sc L) then
        (False, (onD Forward L)\<lparr>d_commentLevel := d_commentLevel L + 1\<rparr>)
      else htm L)"

text \<open>
  The word stored at a line end and the nesting depth a later pass reads back;
  \<open>nestedEmpty\<close> says whether the stack of nested states is empty and \<open>packed\<close>
  is what \<^verbatim>\<open>PackLineState\<close> makes of the stack.
\<close>

definition dart_line_state :: "int \<Rightarrow> int \<Rightarrow> bool \<Rightarrow> int \<Rightarrow> int" where
  "dart_line_state commentLevel lineType nestedEmpty packed =
     (let lineState = push_bit 2 commentLevel OR lineType
      in if \<not> nestedEmpty then lineState OR push_bit 8 packed else lineState)"

definition dart_commentLevel :: "int \<Rightarrow> int" where
  "dart_commentLevel lineState = drop_bit 2 lineState AND 0x3f"

text \<open>
  The end of the loop body of \<^verbatim>\<open>ColouriseDartDoc\<close>; \<open>pack\<close> stands for
  \<^verbatim>\<open>PackLineState\<close>, which the sources at hand do not hold.
\<close>

definition DartAdvance :: "(dart_style list \<Rightarrow> int) \<Rightarrow> DartLexer \<Rightarrow> DartLexer" where
  "DartAdvance pack L =
     (let L1 = (if \<not> isspacechar (ch (d_sc L)) then
                  (let L' = L\<lparr>d_visibleChars := d_visibleChars L + 1\<rparr> in
                   if \<not> DartIsSpaceEquiv (state (d_sc L'))
                   then L'\<lparr>d_chPrevNonWhite := ch (d_sc L')\<rparr> else L')
                else L);
          L2 = (if atLineEnd (d_sc L1) then
                  (onD (\<lambda>c. c\<lparr>styler := SetLineState (currentLine c)
                                  (dart_line_state (d_commentLevel L1)
                                     (d_lineStateLineType L1) (d_nestedState L1 = [])
                                     (pack (d_nestedState L1)))
                                  (styler c)\<rparr>) L1)
                    \<lparr>d_lineStateLineType := 0, d_visibleChars := 0, d_visibleCharsBefore := 0,
                      d_kwType := DartKeywordType_None\<rparr>
                else L1)
      in onD Forward L2)"

section \<open>The F# colouriser: block comments and line ends\<close>

datatype fsharp_style =
    SCE_FSHARP_DEFAULT
  | SCE_FSHARP_COMMENT
  | SCE_FSHARP_COMMENTLINE
  | SCE_FSHARP_COMMENTLINEDOC
  | SCE_FSHARP_OPERATOR
  | SCE_FSHARP_OPERATOR2
  | SCE_FSHARP_NUMBER
  | SCE_FSHARP_IDENTIFIER
  | SCE_FSHARP_PREPROCESSOR
  | SCE_FSHARP_KEYWORD
  | SCE_FSHARP_TYPE
  | SCE_FSHARP_ATTRIBUTE
  | SCE_FSHARP_BACKTICK
  | SCE_FSHARP_QUOTATION
  | SCE_FSHARP_CHARACTER
  | SCE_FSHARP_STRING
  | SCE_FSHARP_INTERPOLATED_STRING
  | SCE_FSHARP_VERBATIM_STRING
  | SCE_FSHARP_INTERPOLATED_VERBATIM_STRING
  | SCE_FSHARP_TRIPLE_STRING
  | SCE_FSHARP_INTERPOLATED_TRIPLE_STRING
  | SCE_FSHARP_ESCAPECHAR
  | SCE_FSHARP_FORMAT_SPECIFIER

text \<open>
  Modelled from the spec: the flag of a comment line in the line state word
  (\<^verbatim>\<open>LexerUtils.h\<close> is not part of the sources at hand).
\<close>

definition PyLineStateMaskCommentLine :: int where
  "PyLineStateMaskCommentLine = push_bit 1 1"

record FSharpLexer =
  f_sc :: "fsharp_style StyleContext"
  f_commentLevel :: int
  f_lineState :: int

definition onF ::
  "(fsharp_style StyleContext \<Rightarrow> fsharp_style StyleContext) \<Rightarrow> FSharpLexer \<Rightarrow> FSharpLexer" where
  "onF f L = L\<lparr>f_sc := f (f_sc L)\<rparr>"

text \<open>\<^verbatim>\<open>case SCE_FSHARP_COMMENT\<close>, over the variables it reads and writes.\<close>

definition FSharpCommentCase :: "FSharpLexer \<Rightarrow> FSharpLexer" where
  "FSharpCommentCase L =
     (let L0 = (if atLineStart (f_sc L) then L\<lparr>f_lineState := PyLineStateMaskCommentLine\<rparr>
                else L)
      in if Match2 (CHR ''('') (CHR ''*'') (f_sc L0) then
           onF Forward (L0\<lparr>f_commentLevel := f_commentLevel L0 + 1\<rparr>)
         else if Match2 (CHR ''*'') (CHR '')'') (f_sc L0) then
           (let L1 = (onF Forward L0)\<lparr>f_commentLevel := f_commentLevel L0 - 1\<rparr>
            in if f_commentLevel L1 = 0 then
                 (let L2 = onF (ForwardSetState SCE_FSHARP_DEFAULT) L1
                  in if f_lineState L2 = PyLineStateMaskCommentLine
                        \<and> GetLineNextChar False (f_sc L2) \<noteq> CHR 0x00
                     then L2\<lparr>f_lineState := 0\<rparr> else L2)
               else L1)
         else L0)"

text \<open>
  The word stored at a line end, from the flags collected in \<^verbatim>\<open>lineState\<close>, and
  the two counters a later pass reads back.
\<close>

definition fs_line_state :: "int \<Rightarrow> int \<Rightarrow> int \<Rightarrow> int \<Rightarrow> int" where
  "fs_line_state lineState indentCount commentLevel stringInterpolatorCount =
     (lineState OR (push_bit 16 indentCount OR push_bit 12 commentLevel
                    OR push_bit 8 stringInterpolatorCount))"

definition fs_commentLevel :: "int \<Rightarrow> int" where
  "fs_commentLevel lineState = drop_bit 12 lineState AND 0xf"

definition fs_stringInterpolatorCount :: "int \<Rightarrow> int" where
  "fs_stringInterpolatorCount lineState = drop_bit 8 lineState AND 0xf"

text \<open>
  The local variables of \<^verbatim>\<open>ColouriseDartDoc\<close> and of the modelled part of
  \<^verbatim>\<open>ColouriseFSharpDoc\<close> as they are declared, before any line state is read.
\<close>

definition DartLexer_init ::
  "nat \<Rightarrow> nat \<Rightarrow> dart_style \<Rightarrow> dart_style Accessor \<Rightarrow> DartLexer" where
  "DartLexer_init startPos lengthDoc initStyle a =
     \<lparr>d_sc = StyleContext_init startPos lengthDoc initStyle a,
      d_lineStateLineType = 0,
      d_commentLevel = 0,
      d_kwType = DartKeywordType_None,
      d_chBeforeIdentifier = CHR 0x00,
      d_nestedState = [],
      d_visibleChars = 0,
      d_chBefore = CHR 0x00,
      d_visibleCharsBefore = 0,
      d_chPrevNonWhite = CHR 0x00,
      d_escSeq = \<lparr>dart_outerState = SCE_DART_DEFAULT, dart_digitsLeft = 0,
                  dart_brace = False\<rparr>\<rparr>"

definition FSharpLexer_init ::
  "nat \<Rightarrow> nat \<Rightarrow> fsharp_style \<Rightarrow> fsharp_style Accessor \<Rightarrow> FSharpLexer" where
  "FSharpLexer_init startPos lengthDoc initStyle a =
     \<lparr>f_sc = StyleContext_init startPos lengthDoc initStyle a,
      f_commentLevel = 0,
      f_lineState = 0\<rparr>"

section \<open>The VHDL colouriser\<close>

datatype vhdl_style =
    SCE_VHDL_DEFAULT
  | SCE_VHDL_COMMENT
  | SCE_VHDL_COMMENTLINEBANG
  | SCE_VHDL_BLOCK_COMMENT
  | SCE_VHDL_NUMBER
  | SCE_VHDL_STRING
  | SCE_VHDL_OPERATOR
  | SCE_VHDL_IDENTIFIER
  | SCE_VHDL_STRINGEOL
  | SCE_VHDL_KEYWORD
  | SCE_VHDL_STDOPERATOR
  | SCE_VHDL_ATTRIBUTE
  | SCE_VHDL_STDFUNCTION
  | SCE_VHDL_STDPACKAGE
  | SCE_VHDL_STDTYPE
  | SCE_VHDL_USERWORD

text \<open>
  Modelled from the spec: more of the character classifier of
  \<^verbatim>\<open>CharacterSet.h\<close> (word characters, operator characters, the start of a
  number) and the lower-casing of the token text.
\<close>

definition iswordchar :: "char \<Rightarrow> bool" where
  "iswordchar c = (IsAlpha c \<or> IsADigit c \<or> c = CHR ''.'' \<or> c = CHR ''_'')"

definition iswordstart :: "char \<Rightarrow> bool" where
  "iswordstart c = (IsAlpha c \<or> IsADigit c \<or> c = CHR ''_'')"

definition isoperator :: "char \<Rightarrow> bool" where
  "isoperator c = (c \<in> set ''%^&*()-+=|{}[]:;<>,/?!.~'')"

definition IsNumberStart :: "char \<Rightarrow> char \<Rightarrow> bool" where
  "IsNumberStart c cNext = (IsADigit c \<or> (c = CHR ''.'' \<and> IsADigit cNext))"

definition MakeLowerCase :: "char \<Rightarrow> char" where
  "MakeLowerCase c = (if 65 \<le> ord c \<and> ord c \<le> 90 then char_of (ord c + 32) else c)"

definition GetCurrentLowered :: "nat \<Rightarrow> 's StyleContext \<Rightarrow> string" where
  "GetCurrentLowered len c = map MakeLowerCase (GetCurrent len c)"

definition GetRelative :: "nat \<Rightarrow> 's StyleContext \<Rightarrow> char" where
  "GetRelative n c = SafeGetCharAt (doc (styler c)) (currentPos c + n)"

text \<open>The look-up of an ended identifier in the seven word lists.\<close>

definition VhdlClassify ::
  "LexerWordList \<Rightarrow> string \<Rightarrow> vhdl_style StyleContext \<Rightarrow> vhdl_style StyleContext" where
  "VhdlClassify kl s c =
     (if kl 0 s then ChangeState SCE_VHDL_KEYWORD c
      else if kl 1 s then ChangeState SCE_VHDL_STDOPERATOR c
      else if kl 2 s then ChangeState SCE_VHDL_ATTRIBUTE c
      else if kl 3 s then ChangeState SCE_VHDL_STDFUNCTION c
      else if kl 4 s then ChangeState SCE_VHDL_STDPACKAGE c
      else if kl 5 s then ChangeState SCE_VHDL_STDTYPE c
      else if kl 6 s then ChangeState SCE_VHDL_USERWORD c
      else c)"

text \<open>\<^verbatim>\<open>else if (sc.state == SCE_VHDL_STRING)\<close>.\<close>

definition VhdlString :: "vhdl_style StyleContext \<Rightarrow> vhdl_style StyleContext" where
  "VhdlString c =
     (if ch c = CHR 0x5C then
        (if chNext c = CHR 0x22 \<or> chNext c = CHR 0x27 \<or> chNext c = CHR 0x5C
         then Forward c else c)
      else if ch c = CHR 0x22 then ForwardSetState SCE_VHDL_DEFAULT c
      else if atLineEnd c then
        ForwardSetState SCE_VHDL_DEFAULT (ChangeState SCE_VHDL_STRINGEOL c)
      else c)"

text \<open>Determine if the current state should terminate.\<close>

definition VhdlEnd :: "LexerWordList \<Rightarrow> vhdl_style StyleContext \<Rightarrow> vhdl_style StyleContext" where
  "VhdlEnd kl c =
     (if state c = SCE_VHDL_OPERATOR then SetState SCE_VHDL_DEFAULT c
      else if state c = SCE_VHDL_NUMBER then
        (if \<not> iswordchar (ch c) \<and> ch c \<noteq> CHR ''#'' then SetState SCE_VHDL_DEFAULT c else c)
      else if state c = SCE_VHDL_IDENTIFIER then
        (if \<not> iswordstart (ch c)
         then SetState SCE_VHDL_DEFAULT (VhdlClassify kl (GetCurrentLowered 128 c) c)
         else c)
      else if state c = SCE_VHDL_COMMENT \<or> state c = SCE_VHDL_COMMENTLINEBANG then
        (if atLineStart c then SetState SCE_VHDL_DEFAULT c else c)
      else if state c = SCE_VHDL_STRING then VhdlString c
      else if state c = SCE_VHDL_BLOCK_COMMENT then
        (if Match2 (CHR ''*'') (CHR ''/'') c
         then ForwardSetState SCE_VHDL_DEFAULT (Forward c) else c)
      else c)"

text \<open>Determine if a new state should be entered.\<close>

definition VhdlStart :: "vhdl_style StyleContext \<Rightarrow> vhdl_style StyleContext" where
  "VhdlStart c =
     (if state c = SCE_VHDL_DEFAULT then
        (if IsNumberStart (ch c) (chNext c) then SetState SCE_VHDL_NUMBER c
         else if iswordstart (ch c) then SetState SCE_VHDL_IDENTIFIER c
         else if Match2 (CHR ''-'') (CHR ''-'') c then
           (if GetRelative 2 c = CHR ''!'' then SetState SCE_VHDL_COMMENTLINEBANG c
            else SetState SCE_VHDL_COMMENT c)
         else if Match2 (CHR ''/'') (CHR ''*'') c then SetState SCE_VHDL_BLOCK_COMMENT c
         else if ch c = CHR 0x22 then SetState SCE_VHDL_STRING c
         else if isoperator (ch c) then SetState SCE_VHDL_OPERATOR c
         else c)
      else c)"

definition VhdlIter :: "LexerWordList \<Rightarrow> vhdl_style StyleContext \<Rightarrow> vhdl_style StyleContext" where
  "VhdlIter kl c = Forward (VhdlStart (VhdlEnd kl c))"

partial_function (option) VhdlLoop ::
  "LexerWordList \<Rightarrow> vhdl_style StyleContext \<Rightarrow> vhdl_style StyleContext option" where
  "VhdlLoop kl c = (if More c then VhdlLoop kl (VhdlIter kl c) else Some c)"

declare VhdlLoop.simps [code]

definition ColouriseVHDLDoc ::
  "nat \<Rightarrow> nat \<Rightarrow> vhdl_style \<Rightarrow> LexerWordList \<Rightarrow> vhdl_style Accessor
     \<Rightarrow> vhdl_style Accessor option" where
  "ColouriseVHDLDoc startPos len initStyle kl a =
     map_option (\<lambda>c. styler (Complete c)) (VhdlLoop kl (StyleContext_init startPos len initStyle a))"

text \<open>
  What the proof about the strings of VHDL keeps track of: the cached characters
  of the cursor are those of the buffer, and neither the token in progress, when
  it is a string, nor any run styled as a string holds a position that ends a
  line.
\<close>

definition no_eol :: "string \<Rightarrow> nat \<Rightarrow> nat \<Rightarrow> bool" where
  "no_eol d a b = (\<forall>p. a \<le> p \<and> p < b \<longrightarrow> \<not> IsLineEndPos d p)"

definition cached :: "'s StyleContext \<Rightarrow> bool" where
  "cached c =
     (ch c = SafeGetCharAt (doc (styler c)) (currentPos c)
      \<and> chNext c = SafeGetCharAt (doc (styler c)) (currentPos c + 1)
      \<and> atLineEnd c = (if currentPos c < lengthDocument c
                       then IsLineEndPos (doc (styler c)) (currentPos c) else True))"

definition string_runs_ok :: "string \<Rightarrow> (nat \<times> nat \<times> vhdl_style) list \<Rightarrow> bool" where
  "string_runs_ok d rs =
     (\<forall>r \<in> set rs. snd (snd r) = SCE_VHDL_STRING \<longrightarrow> no_eol d (fst r) (Suc (fst (snd r))))"

definition vinv :: "vhdl_style StyleContext \<Rightarrow> bool" where
  "vinv c =
     (lengthDocument c = length (doc (styler c))
      \<and> currentPos c \<le> endPos c
      \<and> endPos c \<le> lengthDocument c + 1
      \<and> int (startSeg (styler c)) \<le> flushPos c + 1
      \<and> (currentPos c < endPos c \<longrightarrow> cached c)
      \<and> (state c = SCE_VHDL_STRING \<longrightarrow>
            no_eol (doc (styler c)) (startSeg (styler c)) (currentPos c))
      \<and> string_runs_ok (doc (styler c)) (runs (styler c)))"

text \<open>
  After the first half of the loop body a string in progress stands on a
  character that does not end its line.
\<close>

definition string_safe :: "vhdl_style StyleContext \<Rightarrow> bool" where
  "string_safe c =
     (state c = SCE_VHDL_STRING \<longrightarrow> currentPos c < endPos c
        \<longrightarrow> \<not> IsLineEndPos (doc (styler c)) (currentPos c))"

section \<open>The Asymptote folder\<close>

text \<open>
  Modelled from the spec: the rest of the accessor as the folder uses it (the
  position a line starts at and one fold level per line), the two constants of
  \<^verbatim>\<open>Scintilla.h\<close> and \<^verbatim>\<open>CheckBraceOnNextLine\<close>, which is a parameter \<open>cb\<close> of
  the folder: the position of an opening brace that stands alone on the line after
  the given one, 0 when there is none.
\<close>

definition LineStart :: "string \<Rightarrow> nat \<Rightarrow> nat" where
  "LineStart d n =
     (let ends = filter (IsLineEndPos d) [0..<length d]
      in if n = 0 then 0
         else if n \<le> length ends then Suc (ends ! (n - 1))
         else length d)"

definition SC_FOLDLEVELBASE :: int where
  "SC_FOLDLEVELBASE = 0x400"

definition SC_FOLDLEVELHEADERFLAG :: int where
  "SC_FOLDLEVELHEADERFLAG = 0x2000"

record AsyFoldLineState =
  lineComment :: int
  moduleImport :: int

definition FoldLineState :: "int \<Rightarrow> AsyFoldLineState" where
  "FoldLineState lineState =
     \<lparr>lineComment = lineState AND AsymptoteLineStateMaskLineComment,
      moduleImport = drop_bit 1 lineState AND 1\<rparr>"

definition IsMultilineStringStyle :: "asy_style \<Rightarrow> bool" where
  "IsMultilineStringStyle st =
     (st = SCE_ASY_STRING_SQ \<or> st = SCE_ASY_STRING_DQ \<or> st = SCE_ASY_ESCAPECHAR)"

record AsyFold =
  af_styler :: "asy_style Accessor"
  af_levels :: "nat \<Rightarrow> int"
  af_endPos :: nat
  af_i :: nat
  af_lineCurrent :: nat
  af_foldPrev :: AsyFoldLineState
  af_foldCurrent :: AsyFoldLineState
  af_levelCurrent :: int
  af_levelNext :: int
  af_lineStartNext :: nat
  af_lineEndPos :: int
  af_styleNext :: asy_style
  af_style :: asy_style
  af_visibleChars :: int

text \<open>
  What the \<^verbatim>\<open>switch\<close> on the style of a character adds to \<^verbatim>\<open>levelNext\<close>: block
  comments and strings count where they begin and end, operators count their
  brackets.
\<close>

definition AsyFoldDelta :: "asy_style \<Rightarrow> asy_style \<Rightarrow> asy_style \<Rightarrow> char \<Rightarrow> int" where
  "AsyFoldDelta stylePrev st styleNext c =
     (case st of
        SCE_ASY_COMMENTBLOCK \<Rightarrow>
          (if st \<noteq> stylePrev then 1 else if st \<noteq> styleNext then - 1 else 0)
      | SCE_ASY_STRING_SQ \<Rightarrow>
          (if \<not> IsMultilineStringStyle stylePrev then 1
           else if \<not> IsMultilineStringStyle styleNext then - 1 else 0)
      | SCE_ASY_STRING_DQ \<Rightarrow>
          (if \<not> IsMultilineStringStyle stylePrev then 1
           else if \<not> IsMultilineStringStyle styleNext then - 1 else 0)
      | SCE_ASY_OPERATOR \<Rightarrow>
          (if c = CHR ''{'' \<or> c = CHR ''['' \<or> c = CHR ''('' then 1
           else if c = CHR ''}'' \<or> c = CHR '']'' \<or> c = CHR '')'' then - 1 else 0)
      | _ \<Rightarrow> 0)"

text \<open>The block \<^verbatim>\<open>if (i == lineEndPos)\<close>.\<close>

definition AsyFoldLineEnd ::
  "(asy_style Accessor \<Rightarrow> nat \<Rightarrow> nat) \<Rightarrow> AsyFold \<Rightarrow> AsyFold" where
  "AsyFoldLineEnd cb S =
     (let foldNext = FoldLineState (lineStates (af_styler S) (af_lineCurrent S + 1));
          S1 = (if lineComment (af_foldCurrent S) \<noteq> 0 then
                  S\<lparr>af_levelNext := af_levelNext S
                        + (lineComment foldNext - lineComment (af_foldPrev S))\<rparr>
                else if moduleImport (af_foldCurrent S) \<noteq> 0 then
                  S\<lparr>af_levelNext := af_levelNext S
                        + (moduleImport foldNext - moduleImport (af_foldPrev S))\<rparr>
                else if af_visibleChars S \<noteq> 0 then
                  (let bracePos = cb (af_styler S) (af_lineCurrent S) in
                   if bracePos \<noteq> 0 then
                     S\<lparr>af_levelNext := af_levelNext S + 1,
                       af_i := bracePos,
                       af_style := SCE_ASY_OPERATOR,
                       af_styleNext := AsyStyleAt (af_styler S) (bracePos + 1)\<rparr>
                   else S)
                else S);
          levelUse = af_levelCurrent S1;
          lev0 = levelUse OR push_bit 16 (af_levelNext S1);
          lev = (if levelUse < af_levelNext S1 then lev0 OR SC_FOLDLEVELHEADERFLAG else lev0);
          S2 = (if lev \<noteq> af_levels S1 (af_lineCurrent S1)
                then S1\<lparr>af_levels := (af_levels S1)(af_lineCurrent S1 := lev)\<rparr> else S1);
          lineStartNext = LineStart (doc (af_styler S2)) (af_lineCurrent S2 + 2)
      in S2\<lparr>af_lineCurrent := af_lineCurrent S2 + 1,
            af_lineStartNext := lineStartNext,
            af_lineEndPos := int (min lineStartNext (af_endPos S2)) - 1,
            af_levelCurrent := af_levelNext S2,
            af_foldPrev := af_foldCurrent S2,
            af_foldCurrent := foldNext,
            af_visibleChars := 0\<rparr>)"

text \<open>The body of the loop over the characters, the increment of \<open>i\<close> included.\<close>

definition AsyFoldBody ::
  "(asy_style Accessor \<Rightarrow> nat \<Rightarrow> nat) \<Rightarrow> AsyFold \<Rightarrow> AsyFold" where
  "AsyFoldBody cb S =
     (let stylePrev = af_style S;
          st = af_styleNext S;
          styleNext = AsyStyleAt (af_styler S) (af_i S + 1);
          S1 = S\<lparr>af_style := st, af_styleNext := styleNext,
                 af_levelNext := af_levelNext S
                    + AsyFoldDelta stylePrev st styleNext
                        (SafeGetCharAt (doc (af_styler S)) (af_i S))\<rparr>;
          S2 = (if af_visibleChars S1 = 0 \<and> \<not> AsyIsSpaceEquiv st
                then S1\<lparr>af_visibleChars := af_visibleChars S1 + 1\<rparr> else S1);
          S3 = (if int (af_i S2) = af_lineEndPos S2 then AsyFoldLineEnd cb S2 else S2)
      in S3\<lparr>af_i := af_i S3 + 1\<rparr>)"

partial_function (option) AsyFoldLoop ::
  "(asy_style Accessor \<Rightarrow> nat \<Rightarrow> nat) \<Rightarrow> AsyFold \<Rightarrow> AsyFold option" where
  "AsyFoldLoop cb S = (if af_i S < af_endPos S then AsyFoldLoop cb (AsyFoldBody cb S) else Some S)"

declare AsyFoldLoop.simps [code]

definition AsyFold_init ::
  "nat \<Rightarrow> nat \<Rightarrow> asy_style \<Rightarrow> (asy_style Accessor \<Rightarrow> nat \<Rightarrow> nat) \<Rightarrow> asy_style Accessor
     \<Rightarrow> (nat \<Rightarrow> int) \<Rightarrow> AsyFold" where
  "AsyFold_init startPos lengthDoc initStyle cb a lv =
     (let endPos = startPos + lengthDoc;
          lineCurrent = GetLine (doc a) startPos;
          bracePos = (if lineCurrent > 0 then cb a (lineCurrent - 1) else 0);
          startPos1 = (if bracePos \<noteq> 0 then bracePos + 1 else startPos);
          levelCurrent = (if lineCurrent > 0 then drop_bit 16 (lv (lineCurrent - 1))
                          else SC_FOLDLEVELBASE);
          lineStartNext = LineStart (doc a) (lineCurrent + 1)
      in \<lparr>af_styler = a,
          af_levels = lv,
          af_endPos = endPos,
          af_i = startPos1,
          af_lineCurrent = lineCurrent,
          af_foldPrev = (if lineCurrent > 0 then FoldLineState (lineStates a (lineCurrent - 1))
                         else FoldLineState 0),
          af_foldCurrent = FoldLineState (lineStates a lineCurrent),
          af_levelCurrent = levelCurrent,
          af_levelNext = levelCurrent,
          af_lineStartNext = lineStartNext,
          af_lineEndPos = int (min lineStartNext endPos) - 1,
          af_styleNext = AsyStyleAt a startPos1,
          af_style = initStyle,
          af_visibleChars = 0\<rparr>)"

definition FoldAsyDoc ::
  "nat \<Rightarrow> nat \<Rightarrow> asy_style \<Rightarrow> (asy_style Accessor \<Rightarrow> nat \<Rightarrow> nat) \<Rightarrow> asy_style Accessor
     \<Rightarrow> (nat \<Rightarrow> int) \<Rightarrow> (nat \<Rightarrow> int) option" where
  "FoldAsyDoc startPos lengthDoc initStyle cb a lv =
     map_option af_levels (AsyFoldLoop cb (AsyFold_init startPos lengthDoc initStyle cb a lv))"

text \<open>
  Colouring and then folding a whole document that has no line with a lone
  opening brace and whose lines all start at the base level; the results are the
  line state words and the fold levels of its first \<open>n\<close> lines.
\<close>

definition FoldLevels_new :: "nat \<Rightarrow> int" where
  "FoldLevels_new line = SC_FOLDLEVELBASE"

definition NoBraceOnNextLine :: "asy_style Accessor \<Rightarrow> nat \<Rightarrow> nat" where
  "NoBraceOnNextLine a line = 0"

definition AsyLineStates :: "LexerWordList \<Rightarrow> string \<Rightarrow> nat \<Rightarrow> int list option" where
  "AsyLineStates kl d n =
     map_option (\<lambda>a. map (lineStates a) [0..<n])
       (ColouriseAsyDoc 0 (length d) SCE_ASY_DEFAULT kl (Accessor_new d SCE_ASY_DEFAULT))"

definition AsyFoldLevels :: "LexerWordList \<Rightarrow> string \<Rightarrow> nat \<Rightarrow> int list option" where
  "AsyFoldLevels kl d n =
     (case ColouriseAsyDoc 0 (length d) SCE_ASY_DEFAULT kl (Accessor_new d SCE_ASY_DEFAULT) of
        None \<Rightarrow> None
      | Some a \<Rightarrow>
          map_option (\<lambda>lv. map lv [0..<n])
            (FoldAsyDoc 0 (length d) SCE_ASY_DEFAULT NoBraceOnNextLine a FoldLevels_new))"

section \<open>The line ends of the CMake and VHDL folders\<close>

text \<open>
  \<^verbatim>\<open>FoldCMakeDoc\<close> at the end of a line: what becomes of \<^verbatim>\<open>levelNext\<close>, given
  the line-comment flags of the previous, the current and the next line.
\<close>

definition CMakeFoldLineEnd :: "int \<Rightarrow> int \<Rightarrow> int \<Rightarrow> int \<Rightarrow> int" where
  "CMakeFoldLineEnd lineCommentPrev lineCommentCurrent lineCommentNext levelNext =
     (if lineCommentCurrent \<noteq> 0 then levelNext + (lineCommentNext - lineCommentPrev)
      else levelNext)"

text \<open>
  \<^verbatim>\<open>FoldVHDLDoc\<close> at a character: what the test for a comment line makes of
  \<^verbatim>\<open>levelNext\<close>, given whether the previous, the current and the next line are
  comment lines (\<^verbatim>\<open>IsCommentLine\<close> looks at the styles, not at a line state).
\<close>

definition VhdlFoldCommentLine :: "bool \<Rightarrow> bool \<Rightarrow> bool \<Rightarrow> bool \<Rightarrow> int \<Rightarrow> int" where
  "VhdlFoldCommentLine atEOL commentPrev commentCurrent commentNext levelNext =
     (if atEOL \<and> commentCurrent
      then levelNext + (of_bool commentNext - of_bool commentPrev)
      else levelNext)"

section \<open>The Dart colouriser: strings, escapes and the default state\<close>












section \<open>The F# colouriser: backslash escapes in strings\<close>





section \<open>Escapes of Asymptote stay on their line\<close>

text \<open>
  What the proof about the escapes of Asymptote keeps track of: the cached
  characters of the cursor are those of the buffer, and neither the token in
  progress, when it is an escape, nor any run styled as an escape holds a
  position that ends a line.
\<close>

definition escape_runs_ok :: "string \<Rightarrow> (nat \<times> nat \<times> asy_style) list \<Rightarrow> bool" where
  "escape_runs_ok d rs =
     (\<forall>r \<in> set rs. snd (snd r) = SCE_ASY_ESCAPECHAR \<longrightarrow> no_eol d (fst r) (Suc (fst (snd r))))"

definition einv :: "asy_style StyleContext \<Rightarrow> bool" where
  "einv c =
     (lengthDocument c = length (doc (styler c))
      \<and> currentPos c \<le> endPos c
      \<and> endPos c \<le> lengthDocument c + 1
      \<and> int (startSeg (styler c)) \<le> flushPos c + 1
      \<and> (currentPos c < endPos c \<longrightarrow> cached c)
      \<and> (state c = SCE_ASY_ESCAPECHAR \<longrightarrow>
            no_eol (doc (styler c)) (startSeg (styler c)) (currentPos c))
      \<and> escape_runs_ok (doc (styler c)) (runs (styler c)))"


section \<open>Properties\<close>

subsection \<open>Bit fields\<close>

lemma field_mid:
  fixes a b c :: int
  assumes "i + k \<le> j"
  shows "drop_bit i (push_bit j a OR push_bit i (take_bit k b) OR take_bit i c) AND mask k
         = take_bit k b"
  using assms by (intro bit_eqI) (auto simp add: bit_simps)

lemma field_high:
  fixes a b c :: int
  assumes "i + k \<le> j"
  shows "drop_bit j (push_bit j (take_bit l a) OR push_bit i (take_bit k b) OR take_bit i c)
           AND mask l = take_bit l a"
  using assms by (intro bit_eqI) (auto simp add: bit_simps)

lemma field_low:
  fixes a b c :: int
  assumes "i \<le> j"
  shows "(push_bit j a OR push_bit i b OR take_bit i c) AND mask i = take_bit i c"
  using assms by (intro bit_eqI) (auto simp add: bit_simps)

lemma mask_numerals:
  "(0x7f::int) = mask 7" "(0xff::int) = mask 8" "(1::int) = mask 1"
  "(0x3f::int) = mask 6" "(0xf::int) = mask 4" "(3::int) = mask 2"
  by (simp_all add: mask_eq_exp_minus_1)

subsection \<open>Escape sequences\<close>


lemma asy_escape_run_eq:
  "asy_escape_run e cs =
     min (nat (asy_digitsLeft e - 1))
         (length (takeWhile (\<lambda>c. IsADigitBase c (asy_numBase e)) cs))"
proof (induction cs arbitrary: e)
  case Nil
  show ?case by simp
next
  case (Cons c cs)
  show ?case
  proof (cases "asy_digitsLeft e - 1 \<le> 0 \<or> \<not> IsADigitBase c (asy_numBase e)")
    case True
    then show ?thesis by (auto simp add: asy_atEscapeEnd_def Let_def)
  next
    case False
    then have run: "asy_escape_run e (c # cs)
        = Suc (asy_escape_run (e\<lparr>asy_digitsLeft := asy_digitsLeft e - 1\<rparr>) cs)"
      by (simp add: asy_atEscapeEnd_def Let_def)
    from False have n: "nat (asy_digitsLeft e - 1) = Suc (nat (asy_digitsLeft e - 1 - 1))"
      by linarith
    from False have tw: "takeWhile (\<lambda>c. IsADigitBase c (asy_numBase e)) (c # cs)
        = c # takeWhile (\<lambda>c. IsADigitBase c (asy_numBase e)) cs"
      by simp
    show ?thesis
      unfolding run tw n Cons.IH [of "e\<lparr>asy_digitsLeft := asy_digitsLeft e - 1\<rparr>"]
      by simp
  qed
qed

text \<open>
  C4.  \<^verbatim>\<open>atEscapeEnd\<close> first decrements the count of digits left and then
  reports the end exactly when the decremented count is zero or less, or the
  character is not a digit of the base of the escape (the base of the record in
  Asymptote, decimal or hexadecimal in F#, hexadecimal in Dart); the record it
  leaves holds the decremented count.  Hence the escape state of the Asymptote
  lexer passes over as many characters as there are digits in front, but no more
  than the count allows: the sequence has a variable length up to its maximum and
  the first character that is not a digit ends it.
\<close>

theorem atEscapeEnd_reports_end:
  "asy_atEscapeEnd c e =
     (asy_digitsLeft e - 1 \<le> 0 \<or> \<not> IsADigitBase c (asy_numBase e),
      e\<lparr>asy_digitsLeft := asy_digitsLeft e - 1\<rparr>)
   \<and> fs_atEscapeEnd c f =
     (fs_digitsLeft f - 1 \<le> 0 \<or> \<not> IsDecimalOrHex c (fs_hex f),
      f\<lparr>fs_digitsLeft := fs_digitsLeft f - 1\<rparr>)
   \<and> dart_atEscapeEnd c d =
     (dart_digitsLeft d - 1 \<le> 0 \<or> \<not> IsHexDigit c,
      d\<lparr>dart_digitsLeft := dart_digitsLeft d - 1\<rparr>)
   \<and> asy_escape_run e cs =
     min (nat (asy_digitsLeft e - 1))
         (length (takeWhile (\<lambda>c. IsADigitBase c (asy_numBase e)) cs))"
  by (simp add: asy_atEscapeEnd_def fs_atEscapeEnd_def dart_atEscapeEnd_def Let_def
        asy_escape_run_eq)

theorem atEscapeEnd_reports_end_witness:
  "asy_atEscapeEnd (CHR ''7'')
       \<lparr>asy_outerState = SCE_ASY_STRING_SQ, asy_digitsLeft = 3, asy_numBase = 8\<rparr>
     = (False, \<lparr>asy_outerState = SCE_ASY_STRING_SQ, asy_digitsLeft = 2, asy_numBase = 8\<rparr>)
   \<and> fs_atEscapeEnd (CHR ''7'')
       \<lparr>fs_outerState = SCE_ASY_STRING_SQ, fs_digitsLeft = 1, fs_hex = True\<rparr>
     = (True, \<lparr>fs_outerState = SCE_ASY_STRING_SQ, fs_digitsLeft = 0, fs_hex = True\<rparr>)
   \<and> dart_atEscapeEnd (CHR ''7'')
       \<lparr>dart_outerState = SCE_ASY_STRING_SQ, dart_digitsLeft = 5, dart_brace = False\<rparr>
     = (False, \<lparr>dart_outerState = SCE_ASY_STRING_SQ, dart_digitsLeft = 4, dart_brace = False\<rparr>)
   \<and> asy_escape_run
       \<lparr>asy_outerState = SCE_ASY_STRING_SQ, asy_digitsLeft = 3, asy_numBase = 8\<rparr> ''78'' = 1"
  using atEscapeEnd_reports_end
          [where c = "CHR ''7''"
             and e = "\<lparr>asy_outerState = SCE_ASY_STRING_SQ, asy_digitsLeft = 3, asy_numBase = 8\<rparr>"
             and f = "\<lparr>fs_outerState = SCE_ASY_STRING_SQ, fs_digitsLeft = 1, fs_hex = True\<rparr>"
             and d = "\<lparr>dart_outerState = SCE_ASY_STRING_SQ, dart_digitsLeft = 5,
                       dart_brace = False\<rparr>"
             and cs = "''78''"]
  by (simp add: IsADigitBase_def IsHexDigit_def IsDecimalOrHex_def ord_def
        del: asy_escape_run.simps)

subsection \<open>The line state of the CMake lexer\<close>

text \<open>
  C9.  For a line-comment flag that is 0 or 1, an outer style between 0 and 127
  and a bracket number between 0 and 255, reading the fields back from the word
  \<^verbatim>\<open>(bracketNumber << 8) | (outerStyle << 1) | lineComment\<close> gives the values that
  went in.
\<close>

theorem cmake_line_state_roundtrip:
  assumes "lc = 0 \<or> lc = 1" and "0 \<le> os" and "os \<le> 127" and "0 \<le> bn" and "bn \<le> 255"
  shows "cmake_outerStyle (cmake_line_state bn os lc) = os
       \<and> cmake_bracketNumber (cmake_line_state bn os lc) = bn
       \<and> GetLineCommentState (cmake_line_state bn os lc) = lc"
proof -
  have os: "take_bit 7 os = os" using assms by (simp add: take_bit_int_eq_self)
  have bn: "take_bit 8 bn = bn" using assms by (simp add: take_bit_int_eq_self)
  have lc: "take_bit 1 lc = lc" using assms by (auto simp add: take_bit_int_eq_self)
  have "cmake_outerStyle (cmake_line_state bn os lc) = os"
    using field_mid [of 1 7 8 bn os lc]
    unfolding cmake_outerStyle_def cmake_line_state_def mask_numerals os lc by simp
  moreover have "cmake_bracketNumber (cmake_line_state bn os lc) = bn"
    using field_high [of 1 7 8 8 bn os lc]
    unfolding cmake_bracketNumber_def cmake_line_state_def mask_numerals os lc bn by simp
  moreover have "GetLineCommentState (cmake_line_state bn os lc) = lc"
    using field_low [of 1 8 bn os lc]
    unfolding GetLineCommentState_def cmake_line_state_def lc
    by (simp add: mask_numerals(3) [symmetric])
  ultimately show ?thesis by simp
qed

theorem cmake_line_state_roundtrip_witness:
  "cmake_line_state 2 17 1 = 547
   \<and> cmake_outerStyle 547 = 17 \<and> cmake_bracketNumber 547 = 2 \<and> GetLineCommentState 547 = 1"
proof -
  have w: "cmake_line_state 2 17 1 = 547"
    by (simp add: cmake_line_state_def)
  from cmake_line_state_roundtrip [of 1 17 2] show ?thesis
    unfolding w by simp
qed

subsection \<open>The style context keeps the runs contiguous\<close>

lemma contiguous_snoc:
  "contiguous a rs b \<Longrightarrow> b \<le> l \<Longrightarrow> contiguous a (rs @ [(b, l, s)]) (Suc l)"
  by (induction a rs b rule: contiguous.induct) auto

lemma contiguous_le: "contiguous a rs b \<Longrightarrow> a \<le> b"
  by (induction a rs b rule: contiguous.induct) auto

lemma contiguous_nth:
  "contiguous a rs b \<Longrightarrow> Suc i < length rs \<Longrightarrow>
     fst (rs ! i) \<le> fst (snd (rs ! i))
     \<and> fst (rs ! Suc i) = Suc (fst (snd (rs ! i)))
     \<and> fst (rs ! i) < fst (rs ! Suc i)"
proof (induction a rs b arbitrary: i rule: contiguous.induct)
  case (1 a b)
  then show ?case by simp
next
  case (2 a s l uu rs b)
  show ?case
  proof (cases i)
    case 0
    with 2 show ?thesis by (cases rs) auto
  next
    case (Suc j)
    with "2.IH" [of j] "2.prems" show ?thesis by auto
  qed
qed

lemma frame_simps [simp]:
  "endPos (Forward c) = endPos c"
  "lengthDocument (Forward c) = lengthDocument c"
  "styler (Forward c) = styler c"
  "state (Forward c) = state c"
  "endPos (SetState s c) = endPos c"
  "lengthDocument (SetState s c) = lengthDocument c"
  "currentPos (SetState s c) = currentPos c"
  "state (SetState s c) = s"
  "ch (SetState s c) = ch c"
  "chNext (SetState s c) = chNext c"
  "atLineEnd (SetState s c) = atLineEnd c"
  "atLineStart (SetState s c) = atLineStart c"
  "currentLine (SetState s c) = currentLine c"
  "endPos (ChangeState s c) = endPos c"
  "lengthDocument (ChangeState s c) = lengthDocument c"
  "currentPos (ChangeState s c) = currentPos c"
  "styler (ChangeState s c) = styler c"
  "state (ChangeState s c) = s"
  "ch (ChangeState s c) = ch c"
  "chNext (ChangeState s c) = chNext c"
  "atLineEnd (ChangeState s c) = atLineEnd c"
  "atLineStart (ChangeState s c) = atLineStart c"
  "currentLine (ChangeState s c) = currentLine c"
  "endPos (ForwardSetState s c) = endPos c"
  "lengthDocument (ForwardSetState s c) = lengthDocument c"
  "state (ForwardSetState s c) = s"
  "currentPos (ForwardSetState s c) = currentPos (Forward c)"
  by (simp_all add: Forward_def SetState_def ChangeState_def ForwardSetState_def GetNextChar_def)

lemma currentPos_Forward:
  "currentPos (Forward c) = (if currentPos c < endPos c then currentPos c + 1 else currentPos c)"
  by (simp add: Forward_def GetNextChar_def)

lemma doc_ColourTo [simp]: "doc (ColourTo p s a) = doc a"
  by (simp add: ColourTo_def)

lemma lineStates_ColourTo [simp]: "lineStates (ColourTo p s a) = lineStates a"
  by (simp add: ColourTo_def)

lemma doc_frame [simp]:
  "doc (styler (SetState s c)) = doc (styler c)"
  "doc (styler (ForwardSetState s c)) = doc (styler c)"
  "doc (styler (Complete c)) = doc (styler c)"
  by (simp_all add: SetState_def ForwardSetState_def Complete_def)

lemma sc_ok_Forward: "sc_ok a c \<Longrightarrow> sc_ok a (Forward c)"
  by (auto simp add: sc_ok_def flushPos_def currentPos_Forward)

lemma sc_ok_ChangeState: "sc_ok a c \<Longrightarrow> sc_ok a (ChangeState s c)"
  by (simp add: sc_ok_def flushPos_def)

lemma ColourTo_ok:
  assumes "contiguous a (runs st) (startSeg st)" and "int (startSeg st) \<le> p + 1"
  shows "contiguous a (runs (ColourTo p s st)) (startSeg (ColourTo p s st))
         \<and> int (startSeg (ColourTo p s st)) = p + 1"
proof (cases "p = int (startSeg st) - 1")
  case True
  with assms show ?thesis by (simp add: ColourTo_def)
next
  case False
  with assms have p0: "0 \<le> p" by linarith
  from False assms have le: "startSeg st \<le> nat p" by linarith
  from False assms have "\<not> p < int (startSeg st)" by linarith
  with False have eq: "ColourTo p s st
     = st\<lparr>styles := paint (startSeg st) (nat p) s (styles st),
           runs := runs st @ [(startSeg st, nat p, s)],
           startSeg := nat (p + 1)\<rparr>"
    by (simp add: ColourTo_def)
  have "nat (p + 1) = Suc (nat p)" using p0 by linarith
  with contiguous_snoc [OF assms(1) le, of s] p0 show ?thesis
    unfolding eq by simp
qed

lemma sc_ok_SetState: "sc_ok a c \<Longrightarrow> sc_ok a (SetState s c)"
  using ColourTo_ok [of a "styler c" "flushPos c" "state c"]
  by (simp add: sc_ok_def SetState_def flushPos_def)

lemma sc_ok_ForwardSetState: "sc_ok a c \<Longrightarrow> sc_ok a (ForwardSetState s c)"
  by (simp add: ForwardSetState_def sc_ok_SetState sc_ok_Forward)

lemma sc_ok_Complete:
  assumes "sc_ok a c"
  shows "contiguous a (runs (styler (Complete c))) (nat (flushPos c + 1))"
proof -
  from assms have "contiguous a (runs (ColourTo (flushPos c) (state c) (styler c)))
       (startSeg (ColourTo (flushPos c) (state c) (styler c)))"
    and "int (startSeg (ColourTo (flushPos c) (state c) (styler c))) = flushPos c + 1"
    using ColourTo_ok [of a "styler c" "flushPos c" "state c"] by (simp_all add: sc_ok_def)
  moreover from this(2) have "startSeg (ColourTo (flushPos c) (state c) (styler c))
      = nat (flushPos c + 1)" by linarith
  ultimately show ?thesis by (simp add: Complete_def)
qed

lemma SetLineState_frame [simp]:
  "doc (SetLineState n v st) = doc st"
  "runs (SetLineState n v st) = runs st"
  "startSeg (SetLineState n v st) = startSeg st"
  "styles (SetLineState n v st) = styles st"
  by (simp_all add: SetLineState_def)

lemma sc_ok_SetLineState:
  "sc_ok a c \<Longrightarrow> sc_ok a (c\<lparr>styler := SetLineState n v (styler c)\<rparr>)"
  by (simp add: sc_ok_def flushPos_def)

lemma sc_ok_init:
  "startPos \<le> length (doc a) \<Longrightarrow> sc_ok startPos (StyleContext_init startPos len s a)"
  by (auto simp add: sc_ok_def StyleContext_init_def GetNextChar_def StartSegment_def flushPos_def)


lemma sc_step_refl: "sc_step a c c"
  by (simp add: sc_step_def)

lemma sc_step_Forward: "sc_step a c c' \<Longrightarrow> sc_step a c (Forward c')"
  by (auto simp add: sc_step_def sc_ok_Forward currentPos_Forward)

lemma sc_step_SetState: "sc_step a c c' \<Longrightarrow> sc_step a c (SetState s c')"
  by (auto simp add: sc_step_def sc_ok_SetState)

lemma sc_step_ChangeState: "sc_step a c c' \<Longrightarrow> sc_step a c (ChangeState s c')"
  by (auto simp add: sc_step_def sc_ok_ChangeState)

lemma sc_step_ForwardSetState: "sc_step a c c' \<Longrightarrow> sc_step a c (ForwardSetState s c')"
  unfolding ForwardSetState_def by (intro sc_step_SetState sc_step_Forward)

lemma sc_step_SetLineState:
  "sc_step a c c' \<Longrightarrow> sc_step a c (c'\<lparr>styler := SetLineState n v (styler c')\<rparr>)"
  by (simp add: sc_step_def sc_ok_SetLineState)

lemmas sc_step_intros = sc_step_refl sc_step_Forward sc_step_SetState sc_step_ChangeState
  sc_step_ForwardSetState sc_step_SetLineState

lemma AsyClassify_step: "sc_step a (sc L) (sc (AsyClassify kl L))"
  unfolding AsyClassify_def AsyClassifyWord_def Let_def
  by (simp add: onSc_def sc_step_intros if_distrib [of sc] if_distrib [of "sc_step a (sc L)"]
        cong: if_cong)

lemma AsyClassify_escSeq [simp]: "escSeq (AsyClassify kl L) = escSeq L"
  unfolding AsyClassify_def AsyClassifyWord_def Let_def
  by (simp add: onSc_def if_distrib [of escSeq] cong: if_cong)

lemma AsyIdentifierEnd_step: "sc_step a (sc L) (sc (AsyIdentifierEnd kl L))"
  unfolding AsyIdentifierEnd_def Let_def
  by (simp add: onSc_def sc_step_SetState AsyClassify_step if_distrib [of sc] cong: if_cong)

lemma AsyIdentifierEnd_escSeq [simp]: "escSeq (AsyIdentifierEnd kl L) = escSeq L"
  unfolding AsyIdentifierEnd_def Let_def
  by (simp add: onSc_def if_distrib [of escSeq] cong: if_cong)

lemma AsySwitch_eqs:
  "state (sc L) = SCE_ASY_OPERATOR \<Longrightarrow>
     AsySwitch kl L = (False, onSc (SetState SCE_ASY_DEFAULT) L)"
  "state (sc L) = SCE_ASY_NUMBER \<Longrightarrow>
     AsySwitch kl L = (False,
        if \<not> (IsADigit (ch (sc L)) \<or> (ch (sc L) = CHR ''.'' \<and> IsADigit (chNext (sc L))))
        then onSc (SetState SCE_ASY_DEFAULT) L else L)"
  "state (sc L) = SCE_ASY_IDENTIFIER \<Longrightarrow>
     AsySwitch kl L = (False, if \<not> IsIdentifierChar (ch (sc L)) then AsyIdentifierEnd kl L else L)"
  "state (sc L) = SCE_ASY_COMMENTLINE \<Longrightarrow>
     AsySwitch kl L = (False, if atLineStart (sc L) then onSc (SetState SCE_ASY_DEFAULT) L else L)"
  "state (sc L) = SCE_ASY_COMMENTBLOCK \<Longrightarrow>
     AsySwitch kl L = (False,
        if Match2 (CHR ''*'') (CHR ''/'') (sc L)
        then onSc (ForwardSetState SCE_ASY_DEFAULT) (onSc Forward L) else L)"
  "state (sc L) = SCE_ASY_STRING_DQ \<Longrightarrow>
     AsySwitch kl L = (False,
        if ch (sc L) = CHR 0x5C then
          (if chNext (sc L) = CHR 0x5C \<or> chNext (sc L) = CHR 0x22 then
             onSc Forward (onSc (SetState SCE_ASY_ESCAPECHAR)
               (L\<lparr>escSeq := (escSeq L)\<lparr>asy_outerState := SCE_ASY_STRING_DQ,
                                        asy_digitsLeft := 1\<rparr>\<rparr>))
           else L)
        else if ch (sc L) = CHR 0x22 then onSc (ForwardSetState SCE_ASY_DEFAULT) L
        else L)"
  "state (sc L) = SCE_ASY_STRING_SQ \<Longrightarrow>
     AsySwitch kl L = (False,
        if ch (sc L) = CHR 0x5C then
          (if IsEOLChar (chNext (sc L)) then L\<lparr>escSeq := escSeq L\<rparr>
           else onSc Forward (onSc (SetState SCE_ASY_ESCAPECHAR)
                  (L\<lparr>escSeq := snd (asy_resetEscapeState SCE_ASY_STRING_SQ (chNext (sc L))
                                      (escSeq L))\<rparr>)))
        else if ch (sc L) = CHR 0x27 then onSc (ForwardSetState SCE_ASY_DEFAULT) L
        else L)"
  "state (sc L) = SCE_ASY_ESCAPECHAR \<Longrightarrow>
     AsySwitch kl L =
       (if asy_digitsLeft (escSeq L) - 1 \<le> 0
           \<or> \<not> IsADigitBase (ch (sc L)) (asy_numBase (escSeq L))
        then (True, onSc (SetState (asy_outerState (escSeq L)))
                      (L\<lparr>escSeq := (escSeq L)\<lparr>asy_digitsLeft := asy_digitsLeft (escSeq L) - 1\<rparr>\<rparr>))
        else (False, L\<lparr>escSeq := (escSeq L)\<lparr>asy_digitsLeft := asy_digitsLeft (escSeq L) - 1\<rparr>\<rparr>))"
  "state (sc L) \<notin> {SCE_ASY_OPERATOR, SCE_ASY_NUMBER, SCE_ASY_IDENTIFIER, SCE_ASY_COMMENTLINE,
       SCE_ASY_COMMENTBLOCK, SCE_ASY_STRING_DQ, SCE_ASY_STRING_SQ, SCE_ASY_ESCAPECHAR} \<Longrightarrow>
     AsySwitch kl L = (False, L)"
  by (simp_all add: AsySwitch_def asy_resetEscapeState_def asy_atEscapeEnd_def Let_def
        split: asy_style.split cong: if_cong)

lemma AsySwitch_step: "sc_step a (sc L) (sc (snd (AsySwitch kl L)))"
  by (cases "state (sc L)")
     (simp_all add: AsySwitch_eqs onSc_def sc_step_intros AsyIdentifierEnd_step
        if_distrib [of sc] if_distrib [of snd] if_distrib [of "sc_step a (sc L)"] cong: if_cong)

lemma AsySwitch_esc_ok: "esc_ok L \<Longrightarrow> esc_ok (snd (AsySwitch kl L))"
  by (cases "state (sc L)")
     (simp_all add: AsySwitch_eqs onSc_def esc_ok_def asy_resetEscapeState_def Let_def
        if_distrib [of escSeq] if_distrib [of snd] if_distrib [of asy_outerState]
        cong: if_cong)

lemma AsySwitch_continue:
  "fst (AsySwitch kl L) \<Longrightarrow> esc_ok L \<Longrightarrow>
     state (sc L) = SCE_ASY_ESCAPECHAR
     \<and> state (sc (snd (AsySwitch kl L))) \<noteq> SCE_ASY_ESCAPECHAR
     \<and> currentPos (sc (snd (AsySwitch kl L))) = currentPos (sc L)"
  by (cases "state (sc L)")
     (simp_all add: AsySwitch_eqs onSc_def esc_ok_def split: if_splits cong: if_cong)

lemma AsyDefault_step: "sc_step a (sc L) (sc (AsyDefault L))"
  unfolding AsyDefault_def
  by (simp add: onSc_def sc_step_intros if_distrib [of sc] if_distrib [of "sc_step a (sc L)"]
        cong: if_cong)

lemma AsyDefault_escSeq [simp]: "escSeq (AsyDefault L) = escSeq L"
  unfolding AsyDefault_def
  by (simp add: onSc_def if_distrib [of escSeq] cong: if_cong)

lemma AsyAdvance_step: "sc_step a (sc L) (sc (AsyAdvance L))"
  unfolding AsyAdvance_def Let_def
  by (simp add: onSc_def sc_step_intros if_distrib [of sc] if_distrib [of Forward]
        if_distrib [of "sc_step a (sc L)"] cong: if_cong)

lemma AsyAdvance_escSeq [simp]: "escSeq (AsyAdvance L) = escSeq L"
  unfolding AsyAdvance_def Let_def
  by (simp add: onSc_def if_distrib [of escSeq] cong: if_cong)

lemma AsyAdvance_pos:
  "n \<le> currentPos (sc L) \<Longrightarrow> n < endPos (sc L) \<Longrightarrow> n < currentPos (sc (AsyAdvance L))"
  unfolding AsyAdvance_def Let_def
  by (simp add: onSc_def currentPos_Forward if_distrib [of sc] if_distrib [of currentPos]
        if_distrib [of endPos] if_distrib [of Forward] cong: if_cong)

lemma sc_step_trans: "sc_step a c c' \<Longrightarrow> sc_step a c' c'' \<Longrightarrow> sc_step a c c''"
  by (auto simp add: sc_step_def)

lemma AsyIter_step:
  "sc_step a (sc L) (sc (AsyIter kl L))"
proof (cases "AsySwitch kl L")
  case (Pair b L1)
  with AsySwitch_step [of a L kl] have s1: "sc_step a (sc L) (sc L1)" by simp
  show ?thesis
  proof (cases b)
    case True
    with Pair s1 show ?thesis by (simp add: AsyIter_def)
  next
    case False
    from s1 AsyDefault_step [of a L1] have "sc_step a (sc L) (sc (AsyDefault L1))"
      by (rule sc_step_trans)
    from this AsyAdvance_step [of a "AsyDefault L1"]
    have "sc_step a (sc L) (sc (AsyAdvance (AsyDefault L1)))"
      by (rule sc_step_trans)
    with Pair False show ?thesis by (simp add: AsyIter_def)
  qed
qed

lemma AsyIter_esc_ok: "esc_ok L \<Longrightarrow> esc_ok (AsyIter kl L)"
  using AsySwitch_esc_ok [of L kl]
  by (cases "AsySwitch kl L") (auto simp add: AsyIter_def esc_ok_def split: bool.splits)

lemma AsyIter_measure:
  assumes "esc_ok L" and "More (sc L)"
  shows "asy_measure (AsyIter kl L) < asy_measure L"
proof (cases "AsySwitch kl L")
  case (Pair b L1)
  have e: "endPos (sc (AsyIter kl L)) = endPos (sc L)"
    using AsyIter_step [of 0 L kl] by (simp add: sc_step_def)
  from assms(2) have lt: "currentPos (sc L) < endPos (sc L)" by (simp add: More_def)
  show ?thesis
  proof (cases b)
    case True
    with Pair AsySwitch_continue [of kl L] assms lt e show ?thesis
      by (simp add: AsyIter_def asy_measure_def)
  next
    case False
    have s1: "sc_step 0 (sc L) (sc (AsyDefault L1))"
      using AsySwitch_step [of 0 L kl] AsyDefault_step [of 0 L1] Pair
      by (auto intro: sc_step_trans)
    then have "currentPos (sc L) \<le> currentPos (sc (AsyDefault L1))"
      and "endPos (sc (AsyDefault L1)) = endPos (sc L)"
      by (simp_all add: sc_step_def)
    with lt have "currentPos (sc L) < currentPos (sc (AsyAdvance (AsyDefault L1)))"
      by (intro AsyAdvance_pos) simp_all
    moreover have "AsyIter kl L = AsyAdvance (AsyDefault L1)"
      using Pair False by (simp add: AsyIter_def)
    ultimately show ?thesis using e lt
      by (auto simp add: asy_measure_def)
  qed
qed

lemma AsyLoop_total:
  assumes "esc_ok L"
  shows "\<exists>L'. AsyLoop kl L = Some L' \<and> sc_step a (sc L) (sc L') \<and> \<not> More (sc L')"
  using assms
proof (induction "asy_measure L" arbitrary: L rule: less_induct)
  case less
  show ?case
  proof (cases "More (sc L)")
    case False
    then show ?thesis by (subst AsyLoop.simps) (simp add: sc_step_refl)
  next
    case True
    from less.prems True have "asy_measure (AsyIter kl L) < asy_measure L"
      by (rule AsyIter_measure)
    from less.hyps [OF this AsyIter_esc_ok [OF less.prems]]
    obtain L' where L': "AsyLoop kl (AsyIter kl L) = Some L'"
      "sc_step a (sc (AsyIter kl L)) (sc L')" "\<not> More (sc L')" by blast
    from AsyIter_step [of a L kl] L'(2) have "sc_step a (sc L) (sc L')"
      by (rule sc_step_trans)
    with L' True show ?thesis by (subst AsyLoop.simps) simp
  qed
qed

lemma ColouriseAsyDoc_runs:
  assumes "startPos \<le> length (doc a)"
  shows "\<exists>a'. ColouriseAsyDoc startPos len initStyle kl a = Some a'
           \<and> contiguous startPos (runs a') (min (startPos + len) (length (doc a)))"
proof -
  let ?L = "AsyLexer_init startPos len initStyle a"
  have "esc_ok ?L" by (simp add: esc_ok_def AsyLexer_init_def AsyEscapeSequence_init_def)
  from AsyLoop_total [OF this, of kl startPos]
  obtain L' where L': "AsyLoop kl ?L = Some L'" "sc_step startPos (sc ?L) (sc L')"
    "\<not> More (sc L')" by blast
  have ok0: "sc_ok startPos (sc ?L)"
    using assms by (simp add: AsyLexer_init_def sc_ok_init)
  with L'(2) have ok: "sc_ok startPos (sc L')" by (simp add: sc_step_def)
  have e: "endPos (sc L') = (if startPos + len < length (doc a) then startPos + len
                             else length (doc a) + 1)"
    and l: "lengthDocument (sc L') = length (doc a)"
    using L'(2) by (simp_all add: sc_step_def AsyLexer_init_def StyleContext_init_def
        GetNextChar_def)
  from ok L'(3) have cp: "currentPos (sc L') = endPos (sc L')"
    by (simp add: sc_ok_def More_def)
  have "nat (flushPos (sc L') + 1) = min (startPos + len) (length (doc a))"
    using assms by (auto simp add: flushPos_def cp e l)
  with sc_ok_Complete [OF ok] L'(1) show ?thesis
    by (simp add: ColouriseAsyDoc_def)
qed

subsection \<open>The Asymptote colouriser\<close>

text \<open>
  C2.  A pass of the Asymptote colouriser over a range that starts inside the
  document always returns, and the style runs it has emitted tile the range: the
  first run starts at the start of the range, no run is empty, each run starts
  right after the last position of the run before it (so the starts increase
  strictly, without gap or overlap), and the last run ends where the range ends.
\<close>

theorem ColouriseAsyDoc_runs_contiguous:
  assumes "startPos \<le> length (doc a)"
  shows "\<exists>a'. ColouriseAsyDoc startPos len initStyle kl a = Some a'
           \<and> contiguous startPos (runs a') (min (startPos + len) (length (doc a)))
           \<and> (\<forall>i. Suc i < length (runs a') \<longrightarrow>
                 fst (runs a' ! i) \<le> fst (snd (runs a' ! i))
                 \<and> fst (runs a' ! Suc i) = Suc (fst (snd (runs a' ! i)))
                 \<and> fst (runs a' ! i) < fst (runs a' ! Suc i))"
proof -
  from ColouriseAsyDoc_runs [OF assms, of len initStyle kl]
  obtain a' where a': "ColouriseAsyDoc startPos len initStyle kl a = Some a'"
    "contiguous startPos (runs a') (min (startPos + len) (length (doc a)))" by blast
  from a'(2) have "\<forall>i. Suc i < length (runs a') \<longrightarrow>
                 fst (runs a' ! i) \<le> fst (snd (runs a' ! i))
                 \<and> fst (runs a' ! Suc i) = Suc (fst (snd (runs a' ! i)))
                 \<and> fst (runs a' ! i) < fst (runs a' ! Suc i)"
    by (blast dest: contiguous_nth)
  with a' show ?thesis by blast
qed

lemma asy_eval_int_foo:
  "map_option runs (ColouriseAsyDoc 0 8 SCE_ASY_DEFAULT AsyWords
       (Accessor_new (''int'' @ [CHR 0x0A] @ ''foo('') SCE_ASY_DEFAULT))
     = Some [(0, 2, SCE_ASY_TYPE), (3, 3, SCE_ASY_DEFAULT),
             (4, 6, SCE_ASY_FUNCTION_DEFINITION), (7, 7, SCE_ASY_OPERATOR)]"
  by code_simp

theorem ColouriseAsyDoc_runs_contiguous_witness:
  "0 \<le> length (doc (Accessor_new (''int'' @ [CHR 0x0A] @ ''foo('') SCE_ASY_DEFAULT))
   \<and> contiguous 0 [(0, 2, SCE_ASY_TYPE), (3, 3, SCE_ASY_DEFAULT),
             (4, 6, SCE_ASY_FUNCTION_DEFINITION), (7, 7, SCE_ASY_OPERATOR)] 8"
  using ColouriseAsyDoc_runs_contiguous
          [of 0 "Accessor_new (''int'' @ [CHR 0x0A] @ ''foo('') SCE_ASY_DEFAULT" 8
              SCE_ASY_DEFAULT AsyWords]
        asy_eval_int_foo
  by (auto simp add: Accessor_new_def)

text \<open>
  C1.  The document \<^verbatim>\<open>int\<close>, line feed, \<^verbatim>\<open>foo(\<close> coloured by the Asymptote
  colouriser in one pass, and in two passes split at the start of the second
  line, the second pass being given the style in front of it and the line states
  of the first: the one pass styles \<^verbatim>\<open>foo\<close> as a function definition, the two
  passes style it as a plain function.
\<close>

theorem asy_resume_differs:
  "map_option styles (ColouriseAsyDoc 0 8 SCE_ASY_DEFAULT AsyWords
       (Accessor_new (''int'' @ [CHR 0x0A] @ ''foo('') SCE_ASY_DEFAULT))
     = Some [SCE_ASY_TYPE, SCE_ASY_TYPE, SCE_ASY_TYPE, SCE_ASY_DEFAULT,
             SCE_ASY_FUNCTION_DEFINITION, SCE_ASY_FUNCTION_DEFINITION,
             SCE_ASY_FUNCTION_DEFINITION, SCE_ASY_OPERATOR]
   \<and> map_option styles (AsyTwoPass 4 AsyWords
       (Accessor_new (''int'' @ [CHR 0x0A] @ ''foo('') SCE_ASY_DEFAULT))
     = Some [SCE_ASY_TYPE, SCE_ASY_TYPE, SCE_ASY_TYPE, SCE_ASY_DEFAULT,
             SCE_ASY_FUNCTION, SCE_ASY_FUNCTION, SCE_ASY_FUNCTION, SCE_ASY_OPERATOR]"
  by code_simp

subsection \<open>The pending keyword type\<close>

lemma AsyClassifyWord_kwType:
  "kwType (AsyClassifyWord kl s L) =
     (if kl 0 s then
        (if s = ''import'' \<or> s = ''include'' then kwType L
         else if s = ''new'' \<or> s = ''struct'' then KeywordType_Struct
         else if s = ''return'' then KeywordType_Return
         else kwType L)
      else kwType L)"
  unfolding AsyClassifyWord_def Let_def
  by (simp add: onSc_def if_distrib [of kwType] split del: if_split cong: if_cong)

lemma AsyClassifyWord_WORD:
  assumes "state (sc L) = SCE_ASY_IDENTIFIER"
  shows "(state (sc (AsyClassifyWord kl s L)) = SCE_ASY_WORD) = kl 0 s"
proof (cases "kl 0 s")
  case True
  then show ?thesis
    unfolding AsyClassifyWord_def Let_def
    by (simp add: onSc_def ChangeState_def if_distrib [of sc] if_distrib [of state]
          split del: if_split cong: if_cong)
next
  case False
  with assms show ?thesis
    unfolding AsyClassifyWord_def Let_def
    by (simp add: onSc_def ChangeState_def if_distrib [of sc] if_distrib [of state]
          if_distrib [of "\<lambda>x. x = SCE_ASY_WORD"]
          split del: if_split cong: if_cong)
qed

lemma AsyIdentifierEnd_kwType:
  assumes "state (sc L) = SCE_ASY_IDENTIFIER"
  shows "kwType (AsyIdentifierEnd kl L) =
     (if kl 0 (GetCurrent 128 (sc L)) then
        (if GetCurrent 128 (sc L) = ''import'' \<or> GetCurrent 128 (sc L) = ''include''
           then kwType L
         else if GetCurrent 128 (sc L) = ''new'' \<or> GetCurrent 128 (sc L) = ''struct''
           then KeywordType_Struct
         else if GetCurrent 128 (sc L) = ''return'' then KeywordType_Return
         else kwType L)
      else KeywordType_None)"
proof (cases "kl 0 (GetCurrent 128 (sc L))")
  case True
  with AsyClassifyWord_WORD [OF assms, of kl "GetCurrent 128 (sc L)"]
  have "state (sc (AsyClassify kl L)) = SCE_ASY_WORD" by (simp add: AsyClassify_def)
  then have "kwType (AsyIdentifierEnd kl L) = kwType (AsyClassify kl L)"
    by (simp add: AsyIdentifierEnd_def Let_def onSc_def)
  with True show ?thesis
    by (simp add: AsyClassify_def AsyClassifyWord_kwType split del: if_split)
next
  case False
  with AsyClassifyWord_WORD [OF assms, of kl "GetCurrent 128 (sc L)"]
  have "state (sc (AsyClassify kl L)) \<noteq> SCE_ASY_WORD" by (simp add: AsyClassify_def)
  then have "kwType (AsyIdentifierEnd kl L) = KeywordType_None"
    by (simp add: AsyIdentifierEnd_def Let_def onSc_def)
  with False show ?thesis by simp
qed

lemma AsyDefault_kwType: "kwType (AsyDefault L) = kwType L"
  unfolding AsyDefault_def
  by (simp add: onSc_def if_distrib [of kwType] split del: if_split cong: if_cong)

lemma AsyAdvance_kwType:
  "kwType (AsyAdvance L) = (if atLineEnd (sc L) then KeywordType_None else kwType L)"
  unfolding AsyAdvance_def Let_def
  by (simp add: onSc_def if_distrib [of kwType] if_distrib [of sc] if_distrib [of atLineEnd]
        split del: if_split cong: if_cong)

lemma AsySwitch_kwType_other:
  "state (sc L) \<noteq> SCE_ASY_IDENTIFIER \<or> IsIdentifierChar (ch (sc L)) \<Longrightarrow>
     kwType (snd (AsySwitch kl L)) = kwType L"
  by (cases "state (sc L)")
     (simp_all add: AsySwitch_eqs onSc_def if_distrib [of kwType] if_distrib [of snd]
        split del: if_split cong: if_cong)

lemma AsyClassifyWord_function:
  assumes "\<not> kl 0 s" "\<not> kl 1 s" "\<not> kl 2 s" "\<not> kl 3 s"
    and "kwType L \<noteq> KeywordType_Struct"
    and "GetDocNextChar (sc L) = CHR ''(''"
  shows "state (sc (AsyClassifyWord kl s L)) =
     (if kwType L \<noteq> KeywordType_Return
         \<and> (IsIdentifierChar (chBefore L) \<or> chBefore L = CHR '']'')
      then SCE_ASY_FUNCTION_DEFINITION else SCE_ASY_FUNCTION)"
proof -
  have "ch (sc L) \<noteq> CHR ''.''"
  proof
    assume "ch (sc L) = CHR ''.''"
    then have "GetDocNextChar (sc L) = CHR ''.''"
      by (simp add: GetDocNextChar_def IsWhiteSpace_def ord_def)
    with assms(6) show False by simp
  qed
  with assms show ?thesis
    unfolding AsyClassifyWord_def Let_def
    by (simp add: onSc_def ChangeState_def if_distrib [of sc] if_distrib [of state]
          split del: if_split cong: if_cong)
qed

lemma kwType_onSc [simp]: "kwType (onSc f L) = kwType L"
  by (simp add: onSc_def)

text \<open>
  C7, as the claim states it, fails: a keyword that introduces no type leaves the
  pending type alone.  With \<^verbatim>\<open>new\<close> and \<^verbatim>\<open>if\<close> in the keyword list, the \<^verbatim>\<open>Foo\<close>
  of \<^verbatim>\<open>new if Foo;\<close> is still styled as the struct that \<^verbatim>\<open>new\<close> announced, while
  the \<^verbatim>\<open>Foo\<close> of \<^verbatim>\<open>if Foo;\<close> stays a plain identifier.
\<close>

theorem asy_keyword_keeps_pending_type:
  "map_option styles (ColouriseAsyDoc 0 11 SCE_ASY_DEFAULT AsyWords
       (Accessor_new ''new if Foo;'' SCE_ASY_DEFAULT))
     = Some [SCE_ASY_WORD, SCE_ASY_WORD, SCE_ASY_WORD, SCE_ASY_DEFAULT,
             SCE_ASY_WORD, SCE_ASY_WORD, SCE_ASY_DEFAULT,
             SCE_ASY_STRUCT, SCE_ASY_STRUCT, SCE_ASY_STRUCT, SCE_ASY_OPERATOR]
   \<and> map_option styles (ColouriseAsyDoc 0 7 SCE_ASY_DEFAULT AsyWords
       (Accessor_new ''if Foo;'' SCE_ASY_DEFAULT))
     = Some [SCE_ASY_WORD, SCE_ASY_WORD, SCE_ASY_DEFAULT,
             SCE_ASY_IDENTIFIER, SCE_ASY_IDENTIFIER, SCE_ASY_IDENTIFIER, SCE_ASY_OPERATOR]"
  by code_simp

text \<open>
  C7, amended.  In the Asymptote colouriser the pending keyword type is reset to
  none at every end of line and whenever an identifier token ends that is not a
  keyword.  A keyword token sets it (\<^verbatim>\<open>new\<close> and \<^verbatim>\<open>struct\<close> to struct, \<^verbatim>\<open>return\<close>
  to return, the last one set winning) or, being any other keyword, leaves it as it
  is.  Nothing else in the loop touches it.
\<close>

theorem asy_pending_type_reset:
  "kwType (AsyAdvance L) = (if atLineEnd (sc L) then KeywordType_None else kwType L)
   \<and> kwType (AsyDefault L) = kwType L
   \<and> (state (sc L) \<noteq> SCE_ASY_IDENTIFIER \<or> IsIdentifierChar (ch (sc L)) \<longrightarrow>
        kwType (snd (AsySwitch kl L)) = kwType L)
   \<and> (state (sc L) = SCE_ASY_IDENTIFIER \<and> \<not> IsIdentifierChar (ch (sc L)) \<longrightarrow>
        kwType (snd (AsySwitch kl L)) =
          (if kl 0 (GetCurrent 128 (sc L)) then
             (if GetCurrent 128 (sc L) = ''import'' \<or> GetCurrent 128 (sc L) = ''include''
                then kwType L
              else if GetCurrent 128 (sc L) = ''new'' \<or> GetCurrent 128 (sc L) = ''struct''
                then KeywordType_Struct
              else if GetCurrent 128 (sc L) = ''return'' then KeywordType_Return
              else kwType L)
           else KeywordType_None))"
proof -
  have "state (sc L) = SCE_ASY_IDENTIFIER \<and> \<not> IsIdentifierChar (ch (sc L)) \<longrightarrow>
        kwType (snd (AsySwitch kl L)) = kwType (AsyIdentifierEnd kl L)"
    by (simp add: AsySwitch_eqs)
  then show ?thesis
    using AsySwitch_kwType_other [of L kl] AsyIdentifierEnd_kwType [of L kl]
    by (simp add: AsyAdvance_kwType AsyDefault_kwType split del: if_split)
qed

theorem asy_pending_type_reset_witness:
  "state (sc ((AsyLexer_init 0 2 SCE_ASY_IDENTIFIER (Accessor_new ''( '' SCE_ASY_DEFAULT))
               \<lparr>kwType := KeywordType_Struct\<rparr>)) = SCE_ASY_IDENTIFIER
   \<and> \<not> IsIdentifierChar (ch (sc ((AsyLexer_init 0 2 SCE_ASY_IDENTIFIER
               (Accessor_new ''( '' SCE_ASY_DEFAULT))\<lparr>kwType := KeywordType_Struct\<rparr>)))
   \<and> kwType (snd (AsySwitch AsyWords
        ((AsyLexer_init 0 2 SCE_ASY_IDENTIFIER (Accessor_new ''( '' SCE_ASY_DEFAULT))
           \<lparr>kwType := KeywordType_Struct\<rparr>))) = KeywordType_None"
proof -
  let ?L = "(AsyLexer_init 0 2 SCE_ASY_IDENTIFIER (Accessor_new ''( '' SCE_ASY_DEFAULT))
              \<lparr>kwType := KeywordType_Struct\<rparr>"
  have 1: "state (sc ?L) = SCE_ASY_IDENTIFIER"
    by (simp add: AsyLexer_init_def StyleContext_init_def GetNextChar_def)
  have 2: "ch (sc ?L) = CHR ''(''"
    by (simp add: AsyLexer_init_def StyleContext_init_def GetNextChar_def Accessor_new_def
          SafeGetCharAt_def)
  have 3: "\<not> IsIdentifierChar (CHR ''('')"
    by (simp add: IsIdentifierChar_def IsAlpha_def IsADigit_def ord_def)
  have 4: "GetCurrent 128 (sc ?L) = []"
    by (simp add: AsyLexer_init_def StyleContext_init_def GetNextChar_def Accessor_new_def
          GetCurrent_def StartSegment_def)
  have 5: "\<not> AsyWords 0 []" by (simp add: AsyWords_def)
  from asy_pending_type_reset [of ?L AsyWords] 1 2 3 4 5 show ?thesis by simp
qed

subsection \<open>Function or function definition\<close>


text \<open>
  The character the test looks at is the one the bookkeeping at the end of the
  loop body saw last, which need not be the one in front of the identifier.  The
  closing quote of a string is passed by \<^verbatim>\<open>ForwardSetState\<close> before the
  bookkeeping runs, so in front of \<^verbatim>\<open>foo\<close> the last character recorded is the
  \<^verbatim>\<open>c\<close> inside the string, and \<^verbatim>\<open>foo\<close> is styled as a function definition.
\<close>

lemma asy_closing_quote_not_recorded:
  "map_option styles (ColouriseAsyDoc 0 10 SCE_ASY_DEFAULT AsyWords
       (Accessor_new ([CHR 0x22] @ ''abc'' @ [CHR 0x22] @ '' foo('') SCE_ASY_DEFAULT))
     = Some [SCE_ASY_STRING_DQ, SCE_ASY_STRING_DQ, SCE_ASY_STRING_DQ, SCE_ASY_STRING_DQ,
             SCE_ASY_STRING_DQ, SCE_ASY_DEFAULT,
             SCE_ASY_FUNCTION_DEFINITION, SCE_ASY_FUNCTION_DEFINITION,
             SCE_ASY_FUNCTION_DEFINITION, SCE_ASY_OPERATOR]"
  by code_simp





lemma chBefore_frame [simp]:
  "chBefore (onSc f L) = chBefore L"
  "chPrevNonWhite (onSc f L) = chPrevNonWhite L"
  "d_chBefore (onD g D) = d_chBefore D"
  "d_chPrevNonWhite (onD g D) = d_chPrevNonWhite D"
  by (simp_all add: onSc_def onD_def)

lemma AsyClassify_chBefore [simp]:
  "chBefore (AsyClassify kl L) = chBefore L"
  "chPrevNonWhite (AsyClassify kl L) = chPrevNonWhite L"
  unfolding AsyClassify_def AsyClassifyWord_def Let_def
  by (simp_all add: if_distrib [of chBefore] if_distrib [of chPrevNonWhite] cong: if_cong)

lemma AsyIdentifierEnd_chBefore [simp]:
  "chBefore (AsyIdentifierEnd kl L) = chBefore L"
  "chPrevNonWhite (AsyIdentifierEnd kl L) = chPrevNonWhite L"
  unfolding AsyIdentifierEnd_def Let_def
  by (simp_all add: if_distrib [of chBefore] if_distrib [of chPrevNonWhite] cong: if_cong)










lemma DartKeyword_chBefore [simp]:
  "d_chBefore (DartKeyword s st0 D) = d_chBefore D"
  "d_chPrevNonWhite (DartKeyword s st0 D) = d_chPrevNonWhite D"
  unfolding DartKeyword_def Let_def
  by (simp_all add: if_distrib [of d_chBefore] if_distrib [of d_chPrevNonWhite] cong: if_cong)

lemma DartGuess_chBefore [simp]:
  "d_chBefore (DartGuess D) = d_chBefore D"
  "d_chPrevNonWhite (DartGuess D) = d_chPrevNonWhite D"
  unfolding DartGuess_def Let_def
  by (simp_all add: if_distrib [of d_chBefore] if_distrib [of d_chPrevNonWhite]
        option.case_distrib [of d_chBefore] option.case_distrib [of d_chPrevNonWhite]
        split: option.split cong: if_cong)

lemma DartClassifyWord_chBefore [simp]:
  "d_chBefore (DartClassifyWord kl jl s st0 D) = d_chBefore D"
  "d_chPrevNonWhite (DartClassifyWord kl jl s st0 D) = d_chPrevNonWhite D"
  unfolding DartClassifyWord_def
  by (simp_all add: if_distrib [of d_chBefore] if_distrib [of d_chPrevNonWhite] cong: if_cong)








subsection \<open>Nested block comments\<close>

lemma DartCommentBlockCase_open:
  assumes "Match2 (CHR ''/'') (CHR ''*'') (d_sc L)"
  shows "DartCommentBlockCase htm L
           = (False, (onD Forward L)\<lparr>d_commentLevel := d_commentLevel L + 1\<rparr>)"
proof -
  from assms have "\<not> Match2 (CHR ''*'') (CHR ''/'') (d_sc L)"
    by (simp add: Match2_def)
  with assms show ?thesis by (simp add: DartCommentBlockCase_def)
qed

lemma DartCommentBlockCase_close:
  assumes "Match2 (CHR ''*'') (CHR ''/'') (d_sc L)"
  shows "DartCommentBlockCase htm L
           = (False,
              if d_commentLevel L - 1 = 0
              then onD (ForwardSetState SCE_DART_DEFAULT)
                     ((onD Forward L)\<lparr>d_commentLevel := d_commentLevel L - 1\<rparr>)
              else (onD Forward L)\<lparr>d_commentLevel := d_commentLevel L - 1\<rparr>)"
  using assms by (simp add: DartCommentBlockCase_def Let_def)

lemma Match2_fs_exclusive:
  "Match2 (CHR ''*'') (CHR '')'') c \<Longrightarrow> \<not> Match2 (CHR ''('') (CHR ''*'') c"
  by (simp add: Match2_def)

lemma FSharpCommentCase_state:
  "state (f_sc (FSharpCommentCase L)) =
     (if Match2 (CHR ''*'') (CHR '')'') (f_sc L) \<and> f_commentLevel L - 1 = 0
      then SCE_FSHARP_DEFAULT else state (f_sc L))"
  unfolding FSharpCommentCase_def Let_def
  using Match2_fs_exclusive [of "f_sc L"]
  by (cases "Match2 (CHR ''*'') (CHR '')'') (f_sc L)";
      cases "Match2 (CHR ''('') (CHR ''*'') (f_sc L)";
      cases "f_commentLevel L - 1 = 0")
     (simp_all add: onF_def if_distrib [of f_sc] if_distrib [of state]
        if_distrib [of f_commentLevel]
        split del: if_split cong: if_cong)

lemma FSharpCommentCase_level:
  "f_commentLevel (FSharpCommentCase L) =
     (if Match2 (CHR ''('') (CHR ''*'') (f_sc L) then f_commentLevel L + 1
      else if Match2 (CHR ''*'') (CHR '')'') (f_sc L) then f_commentLevel L - 1
      else f_commentLevel L)"
  unfolding FSharpCommentCase_def Let_def
  using Match2_fs_exclusive [of "f_sc L"]
  by (cases "Match2 (CHR ''*'') (CHR '')'') (f_sc L)";
      cases "Match2 (CHR ''('') (CHR ''*'') (f_sc L)";
      cases "f_commentLevel L - 1 = 0")
     (simp_all add: onF_def if_distrib [of f_sc] if_distrib [of state]
        if_distrib [of f_commentLevel]
        split del: if_split cong: if_cong)

lemma dart_commentLevel_roundtrip:
  assumes "0 \<le> cl" "cl < 64" "0 \<le> lt" "lt < 4"
  shows "dart_commentLevel (dart_line_state cl lt ne pk) = cl"
proof -
  have cl: "take_bit 6 cl = cl" using assms by (simp add: take_bit_int_eq_self)
  have lt: "take_bit 2 lt = lt" using assms by (simp add: take_bit_int_eq_self)
  have a: "drop_bit 2 (push_bit 2 (take_bit 6 cl) OR take_bit 2 lt) AND mask 6 = take_bit 6 cl"
    by (intro bit_eqI) (auto simp add: bit_simps)
  have b: "drop_bit 2 ((push_bit 2 (take_bit 6 cl) OR take_bit 2 lt) OR push_bit 8 pk) AND mask 6
             = take_bit 6 cl"
    by (intro bit_eqI) (auto simp add: bit_simps)
  have "dart_commentLevel (dart_line_state (take_bit 6 cl) (take_bit 2 lt) ne pk)
          = take_bit 6 cl"
    unfolding dart_commentLevel_def dart_line_state_def Let_def mask_numerals
    by (cases ne) (simp_all only: if_True if_False a b simp_thms)
  then show ?thesis by (simp only: cl lt)
qed

lemma fs_commentLevel_roundtrip:
  assumes "0 \<le> fl" "fl < 256" "0 \<le> cl" "cl < 16" "0 \<le> k" "k < 16"
  shows "fs_commentLevel (fs_line_state fl ind cl k) = cl
       \<and> fs_stringInterpolatorCount (fs_line_state fl ind cl k) = k"
proof -
  have cl: "take_bit 4 cl = cl" using assms by (simp add: take_bit_int_eq_self)
  have k: "take_bit 4 k = k" using assms by (simp add: take_bit_int_eq_self)
  have fl: "take_bit 8 fl = fl" using assms by (simp add: take_bit_int_eq_self)
  have a: "drop_bit 12 (take_bit 8 fl OR (push_bit 16 ind OR push_bit 12 (take_bit 4 cl)
                OR push_bit 8 (take_bit 4 k))) AND mask 4 = take_bit 4 cl"
    by (intro bit_eqI) (auto simp add: bit_simps)
  have b: "drop_bit 8 (take_bit 8 fl OR (push_bit 16 ind OR push_bit 12 (take_bit 4 cl)
                OR push_bit 8 (take_bit 4 k))) AND mask 4 = take_bit 4 k"
    by (intro bit_eqI) (auto simp add: bit_simps)
  have "fs_commentLevel (fs_line_state (take_bit 8 fl) ind (take_bit 4 cl) (take_bit 4 k))
          = take_bit 4 cl
       \<and> fs_stringInterpolatorCount
            (fs_line_state (take_bit 8 fl) ind (take_bit 4 cl) (take_bit 4 k)) = take_bit 4 k"
    unfolding fs_commentLevel_def fs_stringInterpolatorCount_def fs_line_state_def
      mask_numerals
    by (simp only: a b)
  then show ?thesis by (simp only: cl k fl)
qed

text \<open>
  C3, as the claim states it, fails: the depth does not survive the line state
  word once it reaches 64 in Dart (16 in F#).  At depth 64 the word of the Dart
  lexer reads back as depth 0.
\<close>

theorem dart_commentLevel_overflow:
  "dart_line_state 64 0 True 0 = 256 \<and> dart_commentLevel (dart_line_state 64 0 True 0) = 0"
  by (simp add: dart_line_state_def dart_commentLevel_def)

text \<open>
  C3, amended.  In the block-comment state of Dart the pair \<^verbatim>\<open>/*\<close> adds one to
  the depth and leaves the state alone, the pair \<^verbatim>\<open>*/\<close> takes one off and the
  state becomes the default state exactly when the new depth is zero; the same
  holds in F# for \<^verbatim>\<open>(*\<close> and \<^verbatim>\<open>*)\<close>.  The depth is packed into the word stored at
  each line end, and the depth read back is the depth stored as long as it is below
  64 in Dart and below 16 in F# (the other fields within their own bits).
\<close>

theorem nested_comment_depth:
  "(Match2 (CHR ''/'') (CHR ''*'') (d_sc L) \<longrightarrow>
      d_commentLevel (snd (DartCommentBlockCase htm L)) = d_commentLevel L + 1
      \<and> state (d_sc (snd (DartCommentBlockCase htm L))) = state (d_sc L))
   \<and> (Match2 (CHR ''*'') (CHR ''/'') (d_sc L) \<longrightarrow>
      d_commentLevel (snd (DartCommentBlockCase htm L)) = d_commentLevel L - 1
      \<and> state (d_sc (snd (DartCommentBlockCase htm L)))
          = (if d_commentLevel L - 1 = 0 then SCE_DART_DEFAULT else state (d_sc L)))
   \<and> f_commentLevel (FSharpCommentCase F) =
       (if Match2 (CHR ''('') (CHR ''*'') (f_sc F) then f_commentLevel F + 1
        else if Match2 (CHR ''*'') (CHR '')'') (f_sc F) then f_commentLevel F - 1
        else f_commentLevel F)
   \<and> state (f_sc (FSharpCommentCase F)) =
       (if Match2 (CHR ''*'') (CHR '')'') (f_sc F) \<and> f_commentLevel F - 1 = 0
        then SCE_FSHARP_DEFAULT else state (f_sc F))
   \<and> d_commentLevel (DartAdvance pack L) = d_commentLevel L
   \<and> (atLineEnd (d_sc L) \<longrightarrow>
        lineStates (styler (d_sc (DartAdvance pack L))) (currentLine (d_sc L))
          = dart_line_state (d_commentLevel L) (d_lineStateLineType L) (d_nestedState L = [])
              (pack (d_nestedState L)))
   \<and> (0 \<le> cl \<and> cl < 64 \<and> 0 \<le> lt \<and> lt < 4 \<longrightarrow>
        dart_commentLevel (dart_line_state cl lt ne pk) = cl)
   \<and> (0 \<le> fl \<and> fl < 256 \<and> 0 \<le> cl' \<and> cl' < 16 \<and> 0 \<le> k \<and> k < 16 \<longrightarrow>
        fs_commentLevel (fs_line_state fl ind cl' k) = cl')"
proof -
  have 1: "Match2 (CHR ''/'') (CHR ''*'') (d_sc L) \<longrightarrow>
      d_commentLevel (snd (DartCommentBlockCase htm L)) = d_commentLevel L + 1
      \<and> state (d_sc (snd (DartCommentBlockCase htm L))) = state (d_sc L)"
    by (simp add: DartCommentBlockCase_open onD_def)
  have 2: "Match2 (CHR ''*'') (CHR ''/'') (d_sc L) \<longrightarrow>
      d_commentLevel (snd (DartCommentBlockCase htm L)) = d_commentLevel L - 1
      \<and> state (d_sc (snd (DartCommentBlockCase htm L)))
          = (if d_commentLevel L - 1 = 0 then SCE_DART_DEFAULT else state (d_sc L))"
    by (simp add: DartCommentBlockCase_close onD_def)
  have 3: "d_commentLevel (DartAdvance pack L) = d_commentLevel L"
    unfolding DartAdvance_def Let_def
    by (simp add: onD_def if_distrib [of d_commentLevel] split del: if_split cong: if_cong)
  have 4: "atLineEnd (d_sc L) \<longrightarrow>
        lineStates (styler (d_sc (DartAdvance pack L))) (currentLine (d_sc L))
          = dart_line_state (d_commentLevel L) (d_lineStateLineType L) (d_nestedState L = [])
              (pack (d_nestedState L))"
  proof
    assume e: "atLineEnd (d_sc L)"
    show "lineStates (styler (d_sc (DartAdvance pack L))) (currentLine (d_sc L))
          = dart_line_state (d_commentLevel L) (d_lineStateLineType L) (d_nestedState L = [])
              (pack (d_nestedState L))"
      unfolding DartAdvance_def Let_def using e
      by (simp add: onD_def SetLineState_def if_distrib [of d_sc] if_distrib [of atLineEnd]
            if_distrib [of d_commentLevel] if_distrib [of d_lineStateLineType]
            if_distrib [of d_nestedState] if_distrib [of currentLine] if_distrib [of styler]
            split del: if_split cong: if_cong)
  qed
  from 1 2 3 4 show ?thesis
    by (simp add: FSharpCommentCase_level FSharpCommentCase_state dart_commentLevel_roundtrip
          fs_commentLevel_roundtrip split del: if_split)
qed

theorem nested_comment_depth_witness:
  "Match2 (CHR ''/'') (CHR ''*'')
       (d_sc (DartLexer_init 0 2 SCE_DART_COMMENTBLOCK (Accessor_new ''/*'' SCE_DART_DEFAULT)))
   \<and> d_commentLevel (snd (DartCommentBlockCase (Pair False)
        (DartLexer_init 0 2 SCE_DART_COMMENTBLOCK (Accessor_new ''/*'' SCE_DART_DEFAULT)))) = 1
   \<and> Match2 (CHR ''*'') (CHR ''/'')
       (d_sc ((DartLexer_init 0 2 SCE_DART_COMMENTBLOCK (Accessor_new ''*/'' SCE_DART_DEFAULT))
                \<lparr>d_commentLevel := 1\<rparr>))
   \<and> state (d_sc (snd (DartCommentBlockCase (Pair False)
        ((DartLexer_init 0 2 SCE_DART_COMMENTBLOCK (Accessor_new ''*/'' SCE_DART_DEFAULT))
           \<lparr>d_commentLevel := 1\<rparr>)))) = SCE_DART_DEFAULT
   \<and> dart_commentLevel (dart_line_state 63 1 True 0) = 63
   \<and> fs_commentLevel (fs_line_state 2 4 15 0) = 15"
proof -
  let ?A = "DartLexer_init 0 2 SCE_DART_COMMENTBLOCK (Accessor_new ''/*'' SCE_DART_DEFAULT)"
  let ?B = "(DartLexer_init 0 2 SCE_DART_COMMENTBLOCK (Accessor_new ''*/'' SCE_DART_DEFAULT))
              \<lparr>d_commentLevel := 1\<rparr>"
  have a: "Match2 (CHR ''/'') (CHR ''*'') (d_sc ?A)" "d_commentLevel ?A = 0"
    by (simp_all add: Match2_def DartLexer_init_def StyleContext_init_def GetNextChar_def
          Accessor_new_def SafeGetCharAt_def StartSegment_def)
  have b: "Match2 (CHR ''*'') (CHR ''/'') (d_sc ?B)" "d_commentLevel ?B = 1"
    by (simp_all add: Match2_def DartLexer_init_def StyleContext_init_def GetNextChar_def
          Accessor_new_def SafeGetCharAt_def StartSegment_def)
  from nested_comment_depth
         [where L = ?A and htm = "Pair False" and cl = 63 and lt = 1 and ne = True and pk = 0
            and fl = 2 and cl' = 15 and k = 0 and ind = 4] a
  have 1: "d_commentLevel (snd (DartCommentBlockCase (Pair False) ?A)) = 1"
    and 3: "dart_commentLevel (dart_line_state 63 1 True 0) = 63"
    and 4: "fs_commentLevel (fs_line_state 2 4 15 0) = 15"
    by simp_all
  from nested_comment_depth
         [where L = ?B and htm = "Pair False" and cl = 63 and lt = 1 and ne = True and pk = 0
            and fl = 2 and cl' = 15 and k = 0 and ind = 4] b
  have 2: "state (d_sc (snd (DartCommentBlockCase (Pair False) ?B))) = SCE_DART_DEFAULT"
    by simp
  from a b 1 2 3 4 show ?thesis by simp
qed


subsection \<open>Strings of VHDL end with their line\<close>

lemma IsLineEndPos_char:
  "IsLineEndPos d p \<Longrightarrow> SafeGetCharAt d p = CHR 0x0A \<or> SafeGetCharAt d p = CHR 0x0D"
  by (auto simp add: IsLineEndPos_def SafeGetCharAt_def)

lemma IsLineEndPos_lt: "IsLineEndPos d p \<Longrightarrow> p < length d"
  by (simp add: IsLineEndPos_def)

lemma no_eol_empty [simp]: "no_eol d a a"
  by (auto simp add: no_eol_def)

lemma no_eol_Suc: "no_eol d a b \<Longrightarrow> \<not> IsLineEndPos d b \<Longrightarrow> no_eol d a (Suc b)"
  by (auto simp add: no_eol_def less_Suc_eq)

lemma no_eol_mono: "no_eol d a b \<Longrightarrow> a \<le> a' \<Longrightarrow> b' \<le> b \<Longrightarrow> no_eol d a' b'"
  by (auto simp add: no_eol_def)

lemma no_eol_beyond: "length d \<le> a \<Longrightarrow> no_eol d a b"
  by (auto simp add: no_eol_def dest: IsLineEndPos_lt)

lemma flushPos_frame [simp]:
  "flushPos (SetState s c) = flushPos c"
  "flushPos (ChangeState s c) = flushPos c"
  by (simp_all add: flushPos_def)

lemma cached_frame [simp]:
  "cached (SetState s c) = cached c"
  "cached (ChangeState s c) = cached c"
  by (simp_all add: cached_def SetState_def ChangeState_def)

lemma styler_SetState: "styler (SetState s c) = ColourTo (flushPos c) (state c) (styler c)"
  by (simp add: SetState_def)

lemma flushPos_le: "nat (flushPos c + 1) \<le> currentPos c"
  unfolding flushPos_def by (cases "currentPos c > lengthDocument c") simp_all

lemma flushPos_beyond:
  "nat (flushPos c + 1) < currentPos c \<Longrightarrow> lengthDocument c \<le> nat (flushPos c + 1)"
  unfolding flushPos_def by (cases "currentPos c > lengthDocument c") simp_all

lemma flushPos_Forward:
  "currentPos c < endPos c \<Longrightarrow> endPos c \<le> lengthDocument c + 1
     \<Longrightarrow> flushPos c \<le> flushPos (Forward c)"
  unfolding flushPos_def by (simp add: currentPos_Forward)

text \<open>A step forward keeps the invariant when a string in progress does not cross a line end.\<close>

lemma vinv_Forward:
  assumes "vinv c"
    and "state c = SCE_VHDL_STRING \<Longrightarrow> currentPos c < endPos c
           \<Longrightarrow> \<not> IsLineEndPos (doc (styler c)) (currentPos c)"
  shows "vinv (Forward c)"
proof (cases "currentPos c < endPos c")
  case False
  then have f: "Forward c = c\<lparr>atLineStart := False, chPrev := CHR '' '', ch := CHR '' '',
              chNext := CHR '' '', atLineEnd := True\<rparr>"
    by (simp add: Forward_def)
  have fp: "flushPos (Forward c) = flushPos c"
    unfolding f by (simp add: flushPos_def)
  from assms(1) False show ?thesis
    unfolding vinv_def fp unfolding f by auto
next
  case True
  with assms(1) have ca: "cached c" by (simp add: vinv_def)
  have f: "Forward c = GetNextChar
          (c\<lparr>atLineStart := atLineEnd c,
             currentLine := (if atLineEnd c then currentLine c + 1 else currentLine c),
             chPrev := ch c, currentPos := currentPos c + 1, ch := chNext c\<rparr>)"
    using True by (simp add: Forward_def)
  have c': "cached (Forward c)"
    using ca assms(1) unfolding f by (simp add: cached_def GetNextChar_def vinv_def)
  have s: "state c = SCE_VHDL_STRING \<longrightarrow>
      no_eol (doc (styler c)) (startSeg (styler c)) (Suc (currentPos c))"
    using assms True by (auto simp add: vinv_def intro: no_eol_Suc)
  have fp: "int (startSeg (styler c)) \<le> flushPos (Forward c) + 1"
    using flushPos_Forward [OF True] assms(1) by (simp add: vinv_def)
  have cp: "currentPos (Forward c) = Suc (currentPos c)"
    using True by (simp add: currentPos_Forward)
  show ?thesis
    using assms(1) True c' s fp unfolding vinv_def cp
    by simp
qed

lemma vinv_ChangeState:
  "vinv c \<Longrightarrow> s \<noteq> SCE_VHDL_STRING \<Longrightarrow> vinv (ChangeState s c)"
  by (simp add: vinv_def)

lemma runs_ColourTo:
  "runs (ColourTo p s a) =
     (if p \<noteq> int (startSeg a) - 1 \<and> \<not> p < int (startSeg a)
      then runs a @ [(startSeg a, nat p, s)] else runs a)"
  by (simp add: ColourTo_def)

lemma startSeg_ColourTo:
  "int (startSeg a) \<le> p + 1 \<Longrightarrow> startSeg (ColourTo p s a) = nat (p + 1)"
  by (auto simp add: ColourTo_def)

lemma vinv_SetState:
  assumes "vinv c"
  shows "vinv (SetState s c)"
proof -
  let ?a = "styler c" and ?p = "flushPos c"
  from assms have le: "int (startSeg ?a) \<le> ?p + 1" by (simp add: vinv_def)
  from assms have len: "lengthDocument c = length (doc ?a)" by (simp add: vinv_def)
  have seg: "startSeg (ColourTo ?p (state c) ?a) = nat (?p + 1)"
    using le by (rule startSeg_ColourTo)
  have seg_le: "int (nat (?p + 1)) \<le> ?p + 1" using le by simp
  have new: "no_eol (doc ?a) (nat (?p + 1)) (currentPos c)"
  proof (cases "nat (?p + 1) < currentPos c")
    case True
    from flushPos_beyond [OF this] len show ?thesis by (intro no_eol_beyond) simp
  next
    case False
    with flushPos_le [of c] have "nat (?p + 1) = currentPos c" by simp
    then show ?thesis by simp
  qed
  have rs: "string_runs_ok (doc ?a) (runs (ColourTo ?p (state c) ?a))"
  proof (cases "?p \<noteq> int (startSeg ?a) - 1 \<and> \<not> ?p < int (startSeg ?a)")
    case False
    then have "runs (ColourTo ?p (state c) ?a) = runs ?a"
      by (auto simp add: runs_ColourTo)
    with assms show ?thesis by (simp add: vinv_def)
  next
    case True
    have "state c = SCE_VHDL_STRING \<Longrightarrow> no_eol (doc ?a) (startSeg ?a) (Suc (nat ?p))"
    proof -
      assume "state c = SCE_VHDL_STRING"
      with assms have "no_eol (doc ?a) (startSeg ?a) (currentPos c)" by (simp add: vinv_def)
      moreover have "Suc (nat ?p) = nat (?p + 1)" using True le by linarith
      ultimately show ?thesis using flushPos_le [of c]
        by (auto intro: no_eol_mono)
    qed
    with True assms show ?thesis
      by (auto simp add: runs_ColourTo vinv_def string_runs_ok_def)
  qed
  show ?thesis
    using assms seg seg_le new rs
    unfolding vinv_def styler_SetState
    by simp
qed

lemma vinv_ForwardSetState:
  assumes "vinv c"
    and "state c = SCE_VHDL_STRING \<Longrightarrow> currentPos c < endPos c
           \<Longrightarrow> \<not> IsLineEndPos (doc (styler c)) (currentPos c)"
  shows "vinv (ForwardSetState s c)"
  unfolding ForwardSetState_def by (intro vinv_SetState vinv_Forward assms)

lemma vinv_Complete:
  assumes "vinv c"
  shows "string_runs_ok (doc (styler c)) (runs (styler (Complete c)))"
proof -
  from vinv_SetState [OF assms, of SCE_VHDL_DEFAULT]
  have "string_runs_ok (doc (styler (SetState SCE_VHDL_DEFAULT c)))
          (runs (styler (SetState SCE_VHDL_DEFAULT c)))"
    by (simp add: vinv_def)
  then show ?thesis by (simp add: SetState_def Complete_def)
qed

lemma vinv_init:
  "startPos \<le> length (doc a) \<Longrightarrow> vinv (StyleContext_init startPos len s a)"
  by (auto simp add: vinv_def StyleContext_init_def GetNextChar_def StartSegment_def
        flushPos_def cached_def string_runs_ok_def)

lemma cached_not_eol:
  assumes "vinv c" and "currentPos c < endPos c"
    and "ch c \<noteq> CHR 0x0A" and "ch c \<noteq> CHR 0x0D"
  shows "\<not> IsLineEndPos (doc (styler c)) (currentPos c)"
proof
  assume "IsLineEndPos (doc (styler c)) (currentPos c)"
  from IsLineEndPos_char [OF this] assms show False
    by (auto simp add: vinv_def cached_def)
qed

lemma cached_not_atLineEnd:
  assumes "vinv c" and "currentPos c < endPos c" and "\<not> atLineEnd c"
  shows "\<not> IsLineEndPos (doc (styler c)) (currentPos c)"
  using assms by (auto simp add: vinv_def cached_def split: if_splits)

lemma vinv_VhdlClassify: "vinv c \<Longrightarrow> vinv (VhdlClassify kl s c)"
  by (simp add: VhdlClassify_def vinv_ChangeState)

lemma state_VhdlClassify: "state c \<noteq> SCE_VHDL_STRING \<Longrightarrow> state (VhdlClassify kl s c) \<noteq> SCE_VHDL_STRING"
  by (simp add: VhdlClassify_def)

lemma VhdlString_ok:
  assumes "vinv c" and "state c = SCE_VHDL_STRING" and "currentPos c < endPos c"
  shows "vinv (VhdlString c) \<and> string_safe (VhdlString c)"
proof -
  consider (bs_esc) "ch c = CHR 0x5C"
      "chNext c = CHR 0x22 \<or> chNext c = CHR 0x27 \<or> chNext c = CHR 0x5C"
    | (bs) "ch c = CHR 0x5C"
      "\<not> (chNext c = CHR 0x22 \<or> chNext c = CHR 0x27 \<or> chNext c = CHR 0x5C)"
    | (quote) "ch c \<noteq> CHR 0x5C" "ch c = CHR 0x22"
    | (eol) "ch c \<noteq> CHR 0x5C" "ch c \<noteq> CHR 0x22" "atLineEnd c"
    | (other) "ch c \<noteq> CHR 0x5C" "ch c \<noteq> CHR 0x22" "\<not> atLineEnd c"
    by blast
  then show ?thesis
  proof cases
    case bs_esc
    then have e: "VhdlString c = Forward c" by (simp add: VhdlString_def)
    from bs_esc(1) have here: "\<not> IsLineEndPos (doc (styler c)) (currentPos c)"
      by (intro cached_not_eol [OF assms(1,3)]) simp_all
    then have v: "vinv (Forward c)" by (intro vinv_Forward assms) 
    have cp: "currentPos (Forward c) = currentPos c + 1"
      using assms(3) by (simp add: currentPos_Forward)
    from assms have ca: "cached c" by (simp add: vinv_def)
    have "ch (Forward c) = chNext c"
      using assms(3) by (simp add: Forward_def GetNextChar_def)
    with bs_esc(2) have nch: "ch (Forward c) \<noteq> CHR 0x0A" "ch (Forward c) \<noteq> CHR 0x0D"
      by auto
    have "string_safe (Forward c)"
      unfolding string_safe_def
      using cached_not_eol [OF v _ nch] by simp
    with v e show ?thesis by simp
  next
    case bs
    then have e: "VhdlString c = c" by (simp add: VhdlString_def)
    from bs(1) have "\<not> IsLineEndPos (doc (styler c)) (currentPos c)"
      by (intro cached_not_eol [OF assms(1,3)]) simp_all
    with assms e show ?thesis by (simp add: string_safe_def)
  next
    case quote
    then have e: "VhdlString c = ForwardSetState SCE_VHDL_DEFAULT c"
      by (simp add: VhdlString_def)
    from quote(2) have "\<not> IsLineEndPos (doc (styler c)) (currentPos c)"
      by (intro cached_not_eol [OF assms(1,3)]) simp_all
    then have "vinv (ForwardSetState SCE_VHDL_DEFAULT c)"
      by (intro vinv_ForwardSetState assms)
    with e show ?thesis by (simp add: string_safe_def)
  next
    case eol
    then have e: "VhdlString c
        = ForwardSetState SCE_VHDL_DEFAULT (ChangeState SCE_VHDL_STRINGEOL c)"
      by (simp add: VhdlString_def)
    have "vinv (ChangeState SCE_VHDL_STRINGEOL c)"
      using assms(1) by (intro vinv_ChangeState) simp_all
    then have "vinv (ForwardSetState SCE_VHDL_DEFAULT (ChangeState SCE_VHDL_STRINGEOL c))"
      by (intro vinv_ForwardSetState) simp_all
    with e show ?thesis by (simp add: string_safe_def)
  next
    case other
    then have e: "VhdlString c = c" by (simp add: VhdlString_def)
    from other(3) have "\<not> IsLineEndPos (doc (styler c)) (currentPos c)"
      by (intro cached_not_atLineEnd [OF assms(1,3)])
    with assms e show ?thesis by (simp add: string_safe_def)
  qed
qed

lemma VhdlEnd_ok:
  assumes "vinv c" and "currentPos c < endPos c"
  shows "vinv (VhdlEnd kl c) \<and> string_safe (VhdlEnd kl c)"
proof (cases "state c = SCE_VHDL_STRING")
  case True
  with VhdlString_ok [OF assms(1) True assms(2)] show ?thesis
    by (simp add: VhdlEnd_def)
next
  case False
  have ns: "state x \<noteq> SCE_VHDL_STRING \<Longrightarrow> string_safe x" for x
    by (simp add: string_safe_def)
  have fw: "vinv (Forward c)" using False by (intro vinv_Forward assms) simp
  have fs: "vinv (ForwardSetState s (Forward c))" for s
    using False by (intro vinv_ForwardSetState fw) simp
  have cl: "vinv (SetState s' (VhdlClassify kl s c))" for s s'
    by (intro vinv_SetState vinv_VhdlClassify assms)
  have st: "vinv (SetState s c)" for s by (intro vinv_SetState assms)
  have "vinv (VhdlEnd kl c) \<and> state (VhdlEnd kl c) \<noteq> SCE_VHDL_STRING"
    using False assms(1) fs cl st
    by (cases "state c") (simp_all add: VhdlEnd_def)
  then show ?thesis by (simp add: ns)
qed

lemma VhdlStart_ok:
  assumes "vinv c" and "string_safe c"
  shows "vinv (VhdlStart c) \<and> string_safe (VhdlStart c)"
proof (cases "state c = SCE_VHDL_DEFAULT")
  case False
  with assms show ?thesis by (simp add: VhdlStart_def)
next
  case True
  have v: "vinv (VhdlStart c)"
    unfolding VhdlStart_def using assms(1) by (simp add: vinv_SetState)
  have "string_safe (VhdlStart c)"
  proof (cases "state (VhdlStart c) = SCE_VHDL_STRING")
    case False
    then show ?thesis by (simp add: string_safe_def)
  next
    case s: True
    have q: "ch c = CHR 0x22"
    proof (rule ccontr)
      assume "ch c \<noteq> CHR 0x22"
      with True have "state (VhdlStart c) \<noteq> SCE_VHDL_STRING"
        by (simp add: VhdlStart_def)
      with s show False by simp
    qed
    have eq: "currentPos (VhdlStart c) = currentPos c" "endPos (VhdlStart c) = endPos c"
      "doc (styler (VhdlStart c)) = doc (styler c)"
      by (simp_all add: VhdlStart_def)
    show ?thesis
      unfolding string_safe_def eq
      using cached_not_eol [OF assms(1)] q by simp
  qed
  with v show ?thesis by simp
qed

lemma VhdlIter_vinv:
  assumes "vinv c" and "More c"
  shows "vinv (VhdlIter kl c)"
proof -
  from assms(2) have lt: "currentPos c < endPos c" by (simp add: More_def)
  from VhdlEnd_ok [OF assms(1) lt, of kl]
  have "vinv (VhdlEnd kl c)" "string_safe (VhdlEnd kl c)" by simp_all
  from VhdlStart_ok [OF this]
  have "vinv (VhdlStart (VhdlEnd kl c))" "string_safe (VhdlStart (VhdlEnd kl c))" by simp_all
  then show ?thesis
    unfolding VhdlIter_def by (intro vinv_Forward) (simp_all add: string_safe_def)
qed

lemma VhdlEnd_frame:
  "endPos (VhdlEnd kl c) = endPos c \<and> currentPos c \<le> currentPos (VhdlEnd kl c)
   \<and> doc (styler (VhdlEnd kl c)) = doc (styler c)"
  by (simp add: VhdlEnd_def VhdlString_def VhdlClassify_def currentPos_Forward)

lemma VhdlStart_frame:
  "endPos (VhdlStart c) = endPos c \<and> currentPos (VhdlStart c) = currentPos c
   \<and> doc (styler (VhdlStart c)) = doc (styler c)"
  by (simp add: VhdlStart_def)

lemma VhdlIter_frame:
  "endPos (VhdlIter kl c) = endPos c \<and> doc (styler (VhdlIter kl c)) = doc (styler c)
   \<and> (currentPos c < endPos c \<longrightarrow> currentPos c < currentPos (VhdlIter kl c))"
  using VhdlEnd_frame [of kl c] VhdlStart_frame [of "VhdlEnd kl c"]
  by (auto simp add: VhdlIter_def currentPos_Forward)

lemma VhdlLoop_total:
  assumes "vinv c"
  shows "\<exists>c'. VhdlLoop kl c = Some c' \<and> vinv c' \<and> doc (styler c') = doc (styler c)"
  using assms
proof (induction "endPos c - currentPos c" arbitrary: c rule: less_induct)
  case less
  show ?case
  proof (cases "More c")
    case False
    with less.prems show ?thesis by (subst VhdlLoop.simps) simp
  next
    case True
    then have lt: "currentPos c < endPos c" by (simp add: More_def)
    with VhdlIter_frame [of kl c]
    have "endPos (VhdlIter kl c) - currentPos (VhdlIter kl c) < endPos c - currentPos c"
      by auto
    from less.hyps [OF this VhdlIter_vinv [OF less.prems True]]
    obtain c' where "VhdlLoop kl (VhdlIter kl c) = Some c'" "vinv c'"
      "doc (styler c') = doc (styler (VhdlIter kl c))" by blast
    with True VhdlIter_frame [of kl c] show ?thesis
      by (subst VhdlLoop.simps) simp
  qed
qed

lemma vhdl_eval_unterminated:
  "map_option runs (ColouriseVHDLDoc 0 5 SCE_VHDL_DEFAULT AsyWords
       (Accessor_new ([CHR 0x22] @ ''ab'' @ [CHR 0x0A] @ ''c'') SCE_VHDL_DEFAULT))
     = Some [(0, 3, SCE_VHDL_STRINGEOL), (4, 4, SCE_VHDL_IDENTIFIER)]"
  by code_simp

text \<open>
  C10.  When the VHDL colouriser stands in the string state on the end of a line
  (which is neither a backslash nor a quote), it relabels the token as
  \<^verbatim>\<open>SCE_VHDL_STRINGEOL\<close>, moves on and is in the default state at the next
  character.  Hence a pass over a range that starts inside the document always
  returns and none of its runs styled as a string holds a position that ends a
  line: the string state never reaches the next line.
\<close>

theorem vhdl_string_ends_with_line:
  "(state c = SCE_VHDL_STRING \<and> atLineEnd c \<and> ch c \<noteq> CHR 0x5C \<and> ch c \<noteq> CHR 0x22 \<longrightarrow>
      VhdlEnd kl c = ForwardSetState SCE_VHDL_DEFAULT (ChangeState SCE_VHDL_STRINGEOL c)
      \<and> state (VhdlEnd kl c) = SCE_VHDL_DEFAULT
      \<and> (currentPos c < endPos c \<longrightarrow> currentPos (VhdlEnd kl c) = currentPos c + 1))
   \<and> (startPos \<le> length (doc a) \<longrightarrow>
      (\<exists>a'. ColouriseVHDLDoc startPos len initStyle kl a = Some a'
         \<and> (\<forall>r \<in> set (runs a'). snd (snd r) = SCE_VHDL_STRING \<longrightarrow>
               (\<forall>p. fst r \<le> p \<and> p \<le> fst (snd r) \<longrightarrow> \<not> IsLineEndPos (doc a) p))))"
proof -
  have 1: "state c = SCE_VHDL_STRING \<and> atLineEnd c \<and> ch c \<noteq> CHR 0x5C \<and> ch c \<noteq> CHR 0x22 \<longrightarrow>
      VhdlEnd kl c = ForwardSetState SCE_VHDL_DEFAULT (ChangeState SCE_VHDL_STRINGEOL c)
      \<and> state (VhdlEnd kl c) = SCE_VHDL_DEFAULT
      \<and> (currentPos c < endPos c \<longrightarrow> currentPos (VhdlEnd kl c) = currentPos c + 1)"
    by (simp add: VhdlEnd_def VhdlString_def currentPos_Forward ChangeState_def)
  have 2: "startPos \<le> length (doc a) \<longrightarrow>
      (\<exists>a'. ColouriseVHDLDoc startPos len initStyle kl a = Some a'
         \<and> (\<forall>r \<in> set (runs a'). snd (snd r) = SCE_VHDL_STRING \<longrightarrow>
               (\<forall>p. fst r \<le> p \<and> p \<le> fst (snd r) \<longrightarrow> \<not> IsLineEndPos (doc a) p)))"
  proof
    assume "startPos \<le> length (doc a)"
    then have "vinv (StyleContext_init startPos len initStyle a)" by (rule vinv_init)
    from VhdlLoop_total [OF this, of kl]
    obtain c' where c': "VhdlLoop kl (StyleContext_init startPos len initStyle a) = Some c'"
      "vinv c'" "doc (styler c') = doc (styler (StyleContext_init startPos len initStyle a))"
      by blast
    have d: "doc (styler c') = doc a"
      using c'(3) by (simp add: StyleContext_init_def GetNextChar_def StartSegment_def)
    from vinv_Complete [OF c'(2)] d
    have "string_runs_ok (doc a) (runs (styler (Complete c')))" by simp
    then have "\<forall>r \<in> set (runs (styler (Complete c'))). snd (snd r) = SCE_VHDL_STRING \<longrightarrow>
               (\<forall>p. fst r \<le> p \<and> p \<le> fst (snd r) \<longrightarrow> \<not> IsLineEndPos (doc a) p)"
      by (auto simp add: string_runs_ok_def no_eol_def)
    with c'(1) show "\<exists>a'. ColouriseVHDLDoc startPos len initStyle kl a = Some a'
         \<and> (\<forall>r \<in> set (runs a'). snd (snd r) = SCE_VHDL_STRING \<longrightarrow>
               (\<forall>p. fst r \<le> p \<and> p \<le> fst (snd r) \<longrightarrow> \<not> IsLineEndPos (doc a) p))"
      by (simp add: ColouriseVHDLDoc_def)
  qed
  from 1 2 show ?thesis by blast
qed

theorem vhdl_string_ends_with_line_witness:
  "state (StyleContext_init 0 1 SCE_VHDL_STRING (Accessor_new [CHR 0x0A] SCE_VHDL_DEFAULT))
     = SCE_VHDL_STRING
   \<and> atLineEnd (StyleContext_init 0 1 SCE_VHDL_STRING (Accessor_new [CHR 0x0A] SCE_VHDL_DEFAULT))
   \<and> state (VhdlEnd AsyWords
        (StyleContext_init 0 1 SCE_VHDL_STRING (Accessor_new [CHR 0x0A] SCE_VHDL_DEFAULT)))
     = SCE_VHDL_DEFAULT
   \<and> map_option runs (ColouriseVHDLDoc 0 5 SCE_VHDL_DEFAULT AsyWords
       (Accessor_new ([CHR 0x22] @ ''ab'' @ [CHR 0x0A] @ ''c'') SCE_VHDL_DEFAULT))
     = Some [(0, 3, SCE_VHDL_STRINGEOL), (4, 4, SCE_VHDL_IDENTIFIER)]
   \<and> IsLineEndPos ([CHR 0x22] @ ''ab'' @ [CHR 0x0A] @ ''c'') 3"
proof -
  let ?c = "StyleContext_init 0 1 SCE_VHDL_STRING (Accessor_new [CHR 0x0A] SCE_VHDL_DEFAULT)"
  let ?a = "Accessor_new ([CHR 0x22] @ ''ab'' @ [CHR 0x0A] @ ''c'') SCE_VHDL_DEFAULT"
  have h: "state ?c = SCE_VHDL_STRING" "atLineEnd ?c" "ch ?c = CHR 0x0A"
    by (simp_all add: StyleContext_init_def GetNextChar_def Accessor_new_def StartSegment_def
          IsLineEndPos_def SafeGetCharAt_def)
  have l: "0 \<le> length (doc ?a)" by simp
  have e: "IsLineEndPos ([CHR 0x22] @ ''ab'' @ [CHR 0x0A] @ ''c'') 3"
    by (simp add: IsLineEndPos_def SafeGetCharAt_def)
  from vhdl_string_ends_with_line [of ?c AsyWords 0 ?a 5 SCE_VHDL_DEFAULT] h l
  have "state (VhdlEnd AsyWords ?c) = SCE_VHDL_DEFAULT" by simp
  with h e vhdl_eval_unterminated show ?thesis by simp
qed


subsection \<open>Comment lines and import lines in the folders\<close>

text \<open>
  C8, as the claim states it, fails: the line \<^verbatim>\<open>import (\<close> is marked as an
  import line (line state 2), the lines around it carry no flag (the one after it
  has line state 0, there is none before it), and still the level that follows
  the line is one above the base level, because the parenthesis of the line
  itself has been counted.
\<close>

theorem asy_import_line_counts_its_bracket:
  "AsyLineStates AsyWords (''import ('' @ [CHR 0x0A]) 2 = Some [2, 0]
   \<and> AsyFoldLevels AsyWords (''import ('' @ [CHR 0x0A]) 1 = Some [67183616]
   \<and> drop_bit 16 (67183616 :: int) = SC_FOLDLEVELBASE + 1"
  by code_simp

lemma AsyFoldLineEnd_comment:
  assumes "lineComment (af_foldCurrent S) \<noteq> 0"
  shows "af_levelNext (AsyFoldLineEnd cb S) =
           af_levelNext S
           + (lineComment (FoldLineState (lineStates (af_styler S) (af_lineCurrent S + 1)))
              - lineComment (af_foldPrev S))
         \<and> af_i (AsyFoldLineEnd cb S) = af_i S"
  using assms unfolding AsyFoldLineEnd_def Let_def
  by (simp add: if_distrib [of af_levelNext] if_distrib [of af_i]
        split del: if_split cong: if_cong)

lemma AsyFoldLineEnd_import:
  assumes "lineComment (af_foldCurrent S) = 0" and "moduleImport (af_foldCurrent S) \<noteq> 0"
  shows "af_levelNext (AsyFoldLineEnd cb S) =
           af_levelNext S
           + (moduleImport (FoldLineState (lineStates (af_styler S) (af_lineCurrent S + 1)))
              - moduleImport (af_foldPrev S))
         \<and> af_i (AsyFoldLineEnd cb S) = af_i S"
  using assms unfolding AsyFoldLineEnd_def Let_def
  by (simp add: if_distrib [of af_levelNext] if_distrib [of af_i]
        split del: if_split cong: if_cong)

lemma AsyFoldBody_line_end:
  assumes "int (af_i S) = af_lineEndPos S"
  shows "AsyFoldBody cb S =
     (let S3 = AsyFoldLineEnd cb
        (let S1 = S\<lparr>af_style := af_styleNext S,
                     af_styleNext := AsyStyleAt (af_styler S) (af_i S + 1),
                     af_levelNext := af_levelNext S
                        + AsyFoldDelta (af_style S) (af_styleNext S)
                            (AsyStyleAt (af_styler S) (af_i S + 1))
                            (SafeGetCharAt (doc (af_styler S)) (af_i S))\<rparr>
         in if af_visibleChars S1 = 0 \<and> \<not> AsyIsSpaceEquiv (af_styleNext S)
            then S1\<lparr>af_visibleChars := af_visibleChars S1 + 1\<rparr> else S1)
      in S3\<lparr>af_i := af_i S3 + 1\<rparr>)"
  using assms unfolding AsyFoldBody_def Let_def
  by (simp add: if_distrib [of af_i] if_distrib [of af_lineEndPos]
        split del: if_split cong: if_cong)

text \<open>
  C8, amended.  At the end of a line that its line state word marks as a comment
  line (or, if not that, as an import line) the Asymptote folder adds to
  \<^verbatim>\<open>levelNext\<close> the flag of the next line minus the flag of the previous line,
  and it does not look for a brace on the next line; what the characters of the
  line itself have added to \<^verbatim>\<open>levelNext\<close> stays counted.  The CMake folder does
  the same with the line-comment flag, and the VHDL folder with its test for a
  comment line.
\<close>

theorem fold_flagged_line_end:
  "(int (af_i S) = af_lineEndPos S \<and> lineComment (af_foldCurrent S) \<noteq> 0 \<longrightarrow>
      af_levelNext (AsyFoldBody cb S) =
        af_levelNext S
        + AsyFoldDelta (af_style S) (af_styleNext S) (AsyStyleAt (af_styler S) (af_i S + 1))
            (SafeGetCharAt (doc (af_styler S)) (af_i S))
        + (lineComment (FoldLineState (lineStates (af_styler S) (af_lineCurrent S + 1)))
           - lineComment (af_foldPrev S))
      \<and> af_i (AsyFoldBody cb S) = af_i S + 1)
   \<and> (int (af_i S) = af_lineEndPos S \<and> lineComment (af_foldCurrent S) = 0
        \<and> moduleImport (af_foldCurrent S) \<noteq> 0 \<longrightarrow>
      af_levelNext (AsyFoldBody cb S) =
        af_levelNext S
        + AsyFoldDelta (af_style S) (af_styleNext S) (AsyStyleAt (af_styler S) (af_i S + 1))
            (SafeGetCharAt (doc (af_styler S)) (af_i S))
        + (moduleImport (FoldLineState (lineStates (af_styler S) (af_lineCurrent S + 1)))
           - moduleImport (af_foldPrev S))
      \<and> af_i (AsyFoldBody cb S) = af_i S + 1)
   \<and> (cur \<noteq> 0 \<longrightarrow> CMakeFoldLineEnd prev cur nxt lvl = lvl + (nxt - prev))
   \<and> (eol \<and> cc \<longrightarrow> VhdlFoldCommentLine eol cp cc cn lvl = lvl + (of_bool cn - of_bool cp))"
proof -
  define S2 where "S2 = (let S1 = S\<lparr>af_style := af_styleNext S,
                     af_styleNext := AsyStyleAt (af_styler S) (af_i S + 1),
                     af_levelNext := af_levelNext S
                        + AsyFoldDelta (af_style S) (af_styleNext S)
                            (AsyStyleAt (af_styler S) (af_i S + 1))
                            (SafeGetCharAt (doc (af_styler S)) (af_i S))\<rparr>
         in if af_visibleChars S1 = 0 \<and> \<not> AsyIsSpaceEquiv (af_styleNext S)
            then S1\<lparr>af_visibleChars := af_visibleChars S1 + 1\<rparr> else S1)"
  have s2: "af_foldCurrent S2 = af_foldCurrent S" "af_foldPrev S2 = af_foldPrev S"
    "af_styler S2 = af_styler S" "af_lineCurrent S2 = af_lineCurrent S" "af_i S2 = af_i S"
    "af_levelNext S2 = af_levelNext S
        + AsyFoldDelta (af_style S) (af_styleNext S) (AsyStyleAt (af_styler S) (af_i S + 1))
            (SafeGetCharAt (doc (af_styler S)) (af_i S))"
    by (simp_all add: S2_def Let_def)
  have b: "int (af_i S) = af_lineEndPos S \<Longrightarrow>
      AsyFoldBody cb S = (AsyFoldLineEnd cb S2)\<lparr>af_i := af_i (AsyFoldLineEnd cb S2) + 1\<rparr>"
    using AsyFoldBody_line_end [of S cb] unfolding S2_def by (simp only: Let_def)
  have 1: "int (af_i S) = af_lineEndPos S \<and> lineComment (af_foldCurrent S) \<noteq> 0 \<longrightarrow>
      af_levelNext (AsyFoldBody cb S) =
        af_levelNext S
        + AsyFoldDelta (af_style S) (af_styleNext S) (AsyStyleAt (af_styler S) (af_i S + 1))
            (SafeGetCharAt (doc (af_styler S)) (af_i S))
        + (lineComment (FoldLineState (lineStates (af_styler S) (af_lineCurrent S + 1)))
           - lineComment (af_foldPrev S))
      \<and> af_i (AsyFoldBody cb S) = af_i S + 1"
  proof
    assume h: "int (af_i S) = af_lineEndPos S \<and> lineComment (af_foldCurrent S) \<noteq> 0"
    then have "lineComment (af_foldCurrent S2) \<noteq> 0" by (simp only: s2 simp_thms)
    from AsyFoldLineEnd_comment [OF this, of cb] b h
    show "af_levelNext (AsyFoldBody cb S) =
        af_levelNext S
        + AsyFoldDelta (af_style S) (af_styleNext S) (AsyStyleAt (af_styler S) (af_i S + 1))
            (SafeGetCharAt (doc (af_styler S)) (af_i S))
        + (lineComment (FoldLineState (lineStates (af_styler S) (af_lineCurrent S + 1)))
           - lineComment (af_foldPrev S))
      \<and> af_i (AsyFoldBody cb S) = af_i S + 1"
      by (simp add: s2)
  qed
  have 2: "int (af_i S) = af_lineEndPos S \<and> lineComment (af_foldCurrent S) = 0
        \<and> moduleImport (af_foldCurrent S) \<noteq> 0 \<longrightarrow>
      af_levelNext (AsyFoldBody cb S) =
        af_levelNext S
        + AsyFoldDelta (af_style S) (af_styleNext S) (AsyStyleAt (af_styler S) (af_i S + 1))
            (SafeGetCharAt (doc (af_styler S)) (af_i S))
        + (moduleImport (FoldLineState (lineStates (af_styler S) (af_lineCurrent S + 1)))
           - moduleImport (af_foldPrev S))
      \<and> af_i (AsyFoldBody cb S) = af_i S + 1"
  proof
    assume h: "int (af_i S) = af_lineEndPos S \<and> lineComment (af_foldCurrent S) = 0
        \<and> moduleImport (af_foldCurrent S) \<noteq> 0"
    then have "lineComment (af_foldCurrent S2) = 0" "moduleImport (af_foldCurrent S2) \<noteq> 0"
      by (simp_all only: s2 simp_thms)
    from AsyFoldLineEnd_import [OF this, of cb] b h
    show "af_levelNext (AsyFoldBody cb S) =
        af_levelNext S
        + AsyFoldDelta (af_style S) (af_styleNext S) (AsyStyleAt (af_styler S) (af_i S + 1))
            (SafeGetCharAt (doc (af_styler S)) (af_i S))
        + (moduleImport (FoldLineState (lineStates (af_styler S) (af_lineCurrent S + 1)))
           - moduleImport (af_foldPrev S))
      \<and> af_i (AsyFoldBody cb S) = af_i S + 1"
      by (simp add: s2)
  qed
  from 1 2 show ?thesis
    by (simp add: CMakeFoldLineEnd_def VhdlFoldCommentLine_def)
qed

theorem fold_flagged_line_end_witness:
  "int (af_i (AsyFold_init 2 3 SCE_ASY_COMMENTLINE NoBraceOnNextLine
          (SetLineState 1 1 (SetLineState 0 1
             (Accessor_new (''//'' @ [CHR 0x0A] @ ''//'') SCE_ASY_COMMENTLINE)))
          FoldLevels_new))
     = af_lineEndPos (AsyFold_init 2 3 SCE_ASY_COMMENTLINE NoBraceOnNextLine
          (SetLineState 1 1 (SetLineState 0 1
             (Accessor_new (''//'' @ [CHR 0x0A] @ ''//'') SCE_ASY_COMMENTLINE)))
          FoldLevels_new)
   \<and> lineComment (af_foldCurrent (AsyFold_init 2 3 SCE_ASY_COMMENTLINE NoBraceOnNextLine
          (SetLineState 1 1 (SetLineState 0 1
             (Accessor_new (''//'' @ [CHR 0x0A] @ ''//'') SCE_ASY_COMMENTLINE)))
          FoldLevels_new)) = 1
   \<and> af_levelNext (AsyFoldBody NoBraceOnNextLine
        (AsyFold_init 2 3 SCE_ASY_COMMENTLINE NoBraceOnNextLine
          (SetLineState 1 1 (SetLineState 0 1
             (Accessor_new (''//'' @ [CHR 0x0A] @ ''//'') SCE_ASY_COMMENTLINE)))
          FoldLevels_new)) = SC_FOLDLEVELBASE + 1
   \<and> int (af_i (AsyFold_init 0 1 SCE_ASY_DEFAULT NoBraceOnNextLine
          (SetLineState 0 2 (Accessor_new ''('' SCE_ASY_OPERATOR)) FoldLevels_new))
     = af_lineEndPos (AsyFold_init 0 1 SCE_ASY_DEFAULT NoBraceOnNextLine
          (SetLineState 0 2 (Accessor_new ''('' SCE_ASY_OPERATOR)) FoldLevels_new)
   \<and> lineComment (af_foldCurrent (AsyFold_init 0 1 SCE_ASY_DEFAULT NoBraceOnNextLine
          (SetLineState 0 2 (Accessor_new ''('' SCE_ASY_OPERATOR)) FoldLevels_new)) = 0
   \<and> moduleImport (af_foldCurrent (AsyFold_init 0 1 SCE_ASY_DEFAULT NoBraceOnNextLine
          (SetLineState 0 2 (Accessor_new ''('' SCE_ASY_OPERATOR)) FoldLevels_new)) = 1
   \<and> af_levelNext (AsyFoldBody NoBraceOnNextLine
        (AsyFold_init 0 1 SCE_ASY_DEFAULT NoBraceOnNextLine
          (SetLineState 0 2 (Accessor_new ''('' SCE_ASY_OPERATOR)) FoldLevels_new))
       = SC_FOLDLEVELBASE + 1
   \<and> CMakeFoldLineEnd 0 1 1 1024 = 1025
   \<and> VhdlFoldCommentLine True False True True 1024 = 1025"
proof -
  define SA where "SA = AsyFold_init 2 3 SCE_ASY_COMMENTLINE NoBraceOnNextLine
          (SetLineState 1 1 (SetLineState 0 1
             (Accessor_new (''//'' @ [CHR 0x0A] @ ''//'') SCE_ASY_COMMENTLINE)))
          FoldLevels_new"
  define SB where "SB = AsyFold_init 0 1 SCE_ASY_DEFAULT NoBraceOnNextLine
          (SetLineState 0 2 (Accessor_new ''('' SCE_ASY_OPERATOR)) FoldLevels_new"
  have eA: "int (af_i SA) = af_lineEndPos SA" "lineComment (af_foldCurrent SA) = 1"
    "af_levelNext SA
        + AsyFoldDelta (af_style SA) (af_styleNext SA) (AsyStyleAt (af_styler SA) (af_i SA + 1))
            (SafeGetCharAt (doc (af_styler SA)) (af_i SA))
        + (lineComment (FoldLineState (lineStates (af_styler SA) (af_lineCurrent SA + 1)))
           - lineComment (af_foldPrev SA)) = SC_FOLDLEVELBASE + 1"
    unfolding SA_def by code_simp+
  have eB: "int (af_i SB) = af_lineEndPos SB" "lineComment (af_foldCurrent SB) = 0"
    "moduleImport (af_foldCurrent SB) = 1"
    "af_levelNext SB
        + AsyFoldDelta (af_style SB) (af_styleNext SB) (AsyStyleAt (af_styler SB) (af_i SB + 1))
            (SafeGetCharAt (doc (af_styler SB)) (af_i SB))
        + (moduleImport (FoldLineState (lineStates (af_styler SB) (af_lineCurrent SB + 1)))
           - moduleImport (af_foldPrev SB)) = SC_FOLDLEVELBASE + 1"
    unfolding SB_def by code_simp+
  from fold_flagged_line_end [where S = SA and cb = NoBraceOnNextLine and cur = 1
      and prev = 0 and nxt = 1 and lvl = 1024 and eol = True and cc = True and cp = False
      and cn = True] eA
  have A: "af_levelNext (AsyFoldBody NoBraceOnNextLine SA) = SC_FOLDLEVELBASE + 1"
    "CMakeFoldLineEnd 0 1 1 1024 = 1025" "VhdlFoldCommentLine True False True True 1024 = 1025"
    by simp_all
  from fold_flagged_line_end [where S = SB and cb = NoBraceOnNextLine and cur = 1
      and prev = 0 and nxt = 1 and lvl = 1024 and eol = True and cc = True and cp = False
      and cn = True] eB
  have B: "af_levelNext (AsyFoldBody NoBraceOnNextLine SB) = SC_FOLDLEVELBASE + 1"
    by simp
  from A B eA eB show ?thesis
    unfolding SA_def SB_def by simp
qed



subsection \<open>Entering and leaving the escape state\<close>



















lemma einv_not_atLineEnd:
  assumes "einv c" and "currentPos c < endPos c" and "\<not> atLineEnd c"
  shows "\<not> IsLineEndPos (doc (styler c)) (currentPos c)"
  using assms by (auto simp add: einv_def cached_def split: if_splits)

lemma einv_SetLineState [simp]:
  "einv (c\<lparr>styler := SetLineState l v (styler c)\<rparr>) = einv c"
  by (simp add: einv_def SetLineState_def flushPos_def cached_def)















end
